theory Spec2Isabelle
  imports Main
begin

section \<open>Values, exceptions and the observable trace\<close>

text \<open>
  Both programs (\<^verbatim>\<open>etl/load_data.py\<close> and \<^verbatim>\<open>query_tool.py\<close>) talk to three
  collaborators: the Vault secret store, the process environment and files, and the
  PostgreSQL database. The model threads one record of all of them through every call
  and appends an event to \<open>trace\<close> for each interaction, so that statements such as
  "no secret write is attempted" are statements about the trace.
\<close>

type_synonym secret = "(string \<times> string) list"

datatype exn =
    VaultNotAvailable
  | VaultFailure
  | KeyError string
  | FileNotFoundError string
  | OperationalError
  | IntegrityError
  | ProgrammingError
  | MultipleResultsFound

text \<open>
  \<open>Raise\<close> is a Python exception derived from \<^verbatim>\<open>Exception\<close>; \<open>SysExit\<close> is
  \<^verbatim>\<open>SystemExit\<close>, which \<^verbatim>\<open>except Exception\<close> does not catch.
\<close>

datatype 'a result = Return 'a | Raise exn | SysExit int

datatype level = INFO | WARNING | ERROR

datatype stmt =
    SchemaDDL
  | StageTomograms
  | MergeTomograms
  | ReadTomoMap
  | TruncateAnnotations
  | AppendAnnotations nat
  | CountQuery
  | RichQuery

datatype event =
    Log level string
  | LogExn level string exn string
  | HealthPoll
  | Sleep nat
  | VaultRead string
  | VaultWrite string secret
  | GetEnv string
  | ReadFile string
  | CreateEngine string
  | DbConnect
  | TxBegin
  | TxCommit
  | TxRollback
  | Exec stmt
  | Print string
  | PrintTable "(string \<times> nat) list"
  | PrintErr string exn

datatype health_response = Healthy | Unhealthy | Unreachable

datatype read_outcome = Found secret | InvalidPath | ReadError

section \<open>The relational store\<close>

record tomogram =
  tomo_id :: nat
  tomo_name :: string
  raw_volume_path :: string

record 'c annotation =
  annotation_id :: nat
  ann_tomo_id :: nat
  coord_x :: 'c
  coord_y :: 'c
  coord_z :: 'c

text \<open>One line of \<^verbatim>\<open>labels.csv\<close> after the column \<^verbatim>\<open>tomo_id\<close> was renamed.\<close>

record 'c label_row =
  label_tomo_name :: string
  label_x :: 'c
  label_y :: 'c
  label_z :: 'c

text \<open>A row of \<^verbatim>\<open>df_annotations\<close>: the id is missing (NaN) when the name is not in the map.\<close>

record 'c fact_row =
  fact_tomo_id :: "nat option"
  fact_x :: 'c
  fact_y :: 'c
  fact_z :: 'c

record 'c database =
  schema_runs :: nat
  tomograms :: "tomogram list"
  tomo_seq :: nat
  temp_tomograms :: "(string \<times> string) list option"
  annotations :: "'c annotation list"
  ann_seq :: nat

record 'c world =
  health :: "nat \<Rightarrow> health_response"
  polls :: nat
  vault :: "(string \<times> secret) list"
  vault_read_fails :: bool
  vault_write_fails :: bool
  environ :: "(string \<times> string) list"
  schema_file :: "string option"
  labels_csv :: "'c label_row list option"
  db_reachable :: bool
  faulty :: "stmt \<Rightarrow> bool"
  db :: "'c database"
  trace :: "event list"

definition emit :: "event \<Rightarrow> 'c world \<Rightarrow> 'c world" where
  "emit e w = w\<lparr>trace := trace w @ [e]\<rparr>"

definition then_do ::
  "('c world \<Rightarrow> 'a result \<times> 'c world) \<Rightarrow> ('a \<Rightarrow> 'c world \<Rightarrow> 'b result \<times> 'c world)
     \<Rightarrow> 'c world \<Rightarrow> 'b result \<times> 'c world" where
  "then_do m f w =
     (case m w of
        (Return v, w') \<Rightarrow> f v w'
      | (Raise e, w') \<Rightarrow> (Raise e, w')
      | (SysExit n, w') \<Rightarrow> (SysExit n, w'))"

section \<open>Decimal rendering used by the f-strings\<close>

definition digit :: "nat \<Rightarrow> char" where
  "digit d = char_of (48 + d)"

fun str_nat :: "nat \<Rightarrow> string" where
  "str_nat n = (if n < 10 then [digit n] else str_nat (n div 10) @ [digit (n mod 10)])"

declare str_nat.simps [simp del]

section \<open>Secret store client\<close>

definition VAULT_SECRET_PATH :: string where
  "VAULT_SECRET_PATH = ''cryoet''"

definition read_health_status :: "'c world \<Rightarrow> bool result \<times> 'c world" where
  "read_health_status w =
     (let w' = emit HealthPoll (w\<lparr>polls := Suc (polls w)\<rparr>) in
      case health w (polls w) of
        Healthy \<Rightarrow> (Return True, w')
      | Unhealthy \<Rightarrow> (Return False, w')
      | Unreachable \<Rightarrow> (Raise VaultFailure, w'))"

definition read_secret_version :: "string \<Rightarrow> 'c world \<Rightarrow> read_outcome \<times> 'c world" where
  "read_secret_version path w =
     (if vault_read_fails w then ReadError
      else case map_of (vault w) path of None \<Rightarrow> InvalidPath | Some d \<Rightarrow> Found d,
      emit (VaultRead path) w)"

definition create_or_update_secret :: "string \<Rightarrow> secret \<Rightarrow> 'c world \<Rightarrow> bool \<times> 'c world" where
  "create_or_update_secret path s w =
     (if vault_write_fails w then (False, emit (VaultWrite path s) w)
      else (True, emit (VaultWrite path s) (w\<lparr>vault := (path, s) # vault w\<rparr>)))"

definition getenv :: "string \<Rightarrow> 'c world \<Rightarrow> string option \<times> 'c world" where
  "getenv name w = (map_of (environ w) name, emit (GetEnv name) w)"

text \<open>Python truthiness of \<^verbatim>\<open>os.getenv\<close>'s result: \<^verbatim>\<open>None\<close> and \<^verbatim>\<open>""\<close> are false.\<close>

definition truthy :: "string option \<Rightarrow> bool" where
  "truthy v = (case v of None \<Rightarrow> False | Some s \<Rightarrow> s \<noteq> [])"

section \<open>Readiness loop (both programs)\<close>

text \<open>
  \<^verbatim>\<open>for i in range(5): if health.ok: break; log; sleep(2)  else: raise Exception(...)\<close>.
  The list argument is the remaining part of \<^verbatim>\<open>range(5)\<close>; the empty list is the
  \<^verbatim>\<open>else\<close> branch of the loop.
\<close>

fun wait_for_vault :: "nat list \<Rightarrow> 'c world \<Rightarrow> unit result \<times> 'c world" where
  "wait_for_vault [] w = (Raise VaultNotAvailable, w)"
| "wait_for_vault (i # rest) w =
     (case read_health_status w of
        (Return ok, w1) \<Rightarrow>
          if ok then (Return (), w1)
          else wait_for_vault rest
                 (emit (Sleep 2)
                   (emit (Log INFO (''Waiting for Vault to be ready... ('' @ str_nat (i + 1) @ ''/5)'')) w1))
      | (Raise e, w1) \<Rightarrow> (Raise e, w1)
      | (SysExit n, w1) \<Rightarrow> (SysExit n, w1))"

section \<open>ETL: credential bootstrap\<close>

definition etl_get_db_credentials_from_vault :: "'c world \<Rightarrow> secret result \<times> 'c world" where
  "etl_get_db_credentials_from_vault w =
     (case read_secret_version VAULT_SECRET_PATH w of
        (Found d, w1) \<Rightarrow> (Return d, w1)
      | (ReadError, w1) \<Rightarrow> (Raise VaultFailure, w1)
      | (InvalidPath, w1) \<Rightarrow>
          (let w2 = emit (Log WARNING ''Secrets not found in Vault. This appears to be the first run.'') w1;
               w3 = emit (Log INFO ''Attempting to write secrets to Vault...'') w2;
               (pg_user, w4) = getenv ''POSTGRES_USER'' w3;
               (pg_password, w5) = getenv ''POSTGRES_PASSWORD'' w4;
               (pg_db, w6) = getenv ''POSTGRES_DB'' w5
           in if \<not> list_all truthy [pg_user, pg_password, pg_db] then
                (SysExit 1,
                 emit (Log ERROR ''FATAL: On first run, POSTGRES_USER, POSTGRES_PASSWORD, and POSTGRES_DB must be set for Vault initialization.'') w6)
              else
                (case create_or_update_secret VAULT_SECRET_PATH
                        [(''POSTGRES_USER'', the pg_user),
                         (''POSTGRES_PASSWORD'', the pg_password),
                         (''POSTGRES_DB'', the pg_db)] w6 of
                   (True, w7) \<Rightarrow>
                     (SysExit 0,
                      emit (Log INFO ''Secrets successfully written to Vault. Please re-run the command.'') w7)
                 | (False, w7) \<Rightarrow>
                     (SysExit 1,
                      emit (LogExn ERROR ''FATAL: Could not write secrets to Vault: '' VaultFailure '''') w7))))"

section \<open>Database statements issued by the pipeline\<close>

text \<open>
  Modelled from the spec: \<^verbatim>\<open>/app/sql/schema.sql\<close> is not part of the sources. The
  spec describes it as idempotent DDL (\<^verbatim>\<open>CREATE TABLE IF NOT EXISTS\<close> style), a unique
  \<open>tomo_name\<close>, generated ids and a foreign key from annotations to tomograms. Executing the
  batch is recorded in \<open>schema_runs\<close> and leaves the rows alone.
\<close>

definition apply_schema :: "'c database \<Rightarrow> 'c database" where
  "apply_schema d = d\<lparr>schema_runs := Suc (schema_runs d)\<rparr>"

text \<open>\<^verbatim>\<open>Series.unique()\<close>: distinct values in order of first appearance.\<close>

fun unique :: "'a list \<Rightarrow> 'a list" where
  "unique [] = []"
| "unique (x # xs) = x # unique (filter (\<lambda>y. y \<noteq> x) xs)"

text \<open>The frame \<^verbatim>\<open>unique_tomos\<close>: one row per name, with the derived volume path.\<close>

definition unique_tomos :: "'c label_row list \<Rightarrow> (string \<times> string) list" where
  "unique_tomos df_labels =
     map (\<lambda>n. (n, ''volumes/'' @ n @ ''.mrc'')) (unique (map label_tomo_name df_labels))"

text \<open>\<^verbatim>\<open>to_sql('temp_tomograms', if_exists='replace')\<close>.\<close>

definition stage_tomograms :: "(string \<times> string) list \<Rightarrow> 'c database \<Rightarrow> 'c database" where
  "stage_tomograms rows d = d\<lparr>temp_tomograms := Some rows\<rparr>"

text \<open>
  \<^verbatim>\<open>INSERT INTO tomograms ... SELECT ... FROM temp_tomograms ON CONFLICT (tomo_name) DO NOTHING\<close>.
  Every candidate row draws the next value of the id sequence (as PostgreSQL does, also for
  a row that is then dropped by the conflict clause); a row whose name is present is
  skipped and the rows already in the table are kept as they are.
\<close>

fun merge_rows :: "(string \<times> string) list \<Rightarrow> tomogram list \<Rightarrow> nat \<Rightarrow> tomogram list \<times> nat" where
  "merge_rows [] ts s = (ts, s)"
| "merge_rows ((n, p) # rest) ts s =
     (if n \<in> set (map tomo_name ts) then merge_rows rest ts (Suc s)
      else merge_rows rest (ts @ [\<lparr>tomo_id = Suc s, tomo_name = n, raw_volume_path = p\<rparr>]) (Suc s))"

definition insert_tomograms :: "'c database \<Rightarrow> exn + 'c database" where
  "insert_tomograms d =
     (case temp_tomograms d of
        None \<Rightarrow> Inl ProgrammingError
      | Some rows \<Rightarrow>
          (case merge_rows rows (tomograms d) (tomo_seq d) of
             (ts, s) \<Rightarrow> Inr (d\<lparr>tomograms := ts, tomo_seq := s\<rparr>)))"

text \<open>\<^verbatim>\<open>SELECT tomo_id, tomo_name FROM tomograms\<close>.\<close>

definition select_tomo_map :: "'c database \<Rightarrow> (nat \<times> string) list" where
  "select_tomo_map d = map (\<lambda>t. (tomo_id t, tomo_name t)) (tomograms d)"

text \<open>\<^verbatim>\<open>dict(zip(keys, values))\<close>: a later pair replaces an earlier one with the same key.\<close>

definition py_dict :: "('k \<times> 'v) list \<Rightarrow> 'k \<Rightarrow> 'v option" where
  "py_dict kvs = map_of (rev kvs)"

definition make_annotations :: "(nat \<times> string) list \<Rightarrow> 'c label_row list \<Rightarrow> 'c fact_row list" where
  "make_annotations tomo_map_df df_labels =
     map (\<lambda>r. \<lparr>fact_tomo_id = py_dict (zip (map snd tomo_map_df) (map fst tomo_map_df)) (label_tomo_name r),
               fact_x = label_x r, fact_y = label_y r, fact_z = label_z r\<rparr>) df_labels"

text \<open>\<^verbatim>\<open>TRUNCATE TABLE annotations RESTART IDENTITY CASCADE\<close>.\<close>

definition truncate_annotations :: "'c database \<Rightarrow> 'c database" where
  "truncate_annotations d = d\<lparr>annotations := [], ann_seq := 0\<rparr>"

text \<open>
  Modelled from the spec: the constraint on \<open>annotations.tomo_id\<close> is declared in the
  missing schema file. A record whose \<open>tomo_id\<close> is absent or names no tomogram row
  fails the foreign-key invariant.
\<close>

definition fk_ok :: "'c database \<Rightarrow> 'c fact_row \<Rightarrow> bool" where
  "fk_ok d r = (case fact_tomo_id r of None \<Rightarrow> False | Some i \<Rightarrow> i \<in> set (map tomo_id (tomograms d)))"

fun number_rows :: "nat \<Rightarrow> 'c fact_row list \<Rightarrow> 'c annotation list" where
  "number_rows s [] = []"
| "number_rows s (r # rs) =
     \<lparr>annotation_id = Suc s, ann_tomo_id = the (fact_tomo_id r),
      coord_x = fact_x r, coord_y = fact_y r, coord_z = fact_z r\<rparr> # number_rows (Suc s) rs"

text \<open>One batch of \<^verbatim>\<open>to_sql('annotations', if_exists='append')\<close>: all of its rows or none.\<close>

definition insert_chunk :: "'c fact_row list \<Rightarrow> 'c database \<Rightarrow> exn + 'c database" where
  "insert_chunk chunk d =
     (if list_all (fk_ok d) chunk
      then Inr (d\<lparr>annotations := annotations d @ number_rows (ann_seq d) chunk,
                 ann_seq := ann_seq d + length chunk\<rparr>)
      else Inl IntegrityError)"

definition CHUNKSIZE :: nat where
  "CHUNKSIZE = 10000"

function chunks :: "'a list \<Rightarrow> 'a list list" where
  "chunks xs = (if xs = [] then [] else take CHUNKSIZE xs # chunks (drop CHUNKSIZE xs))"
  by pat_completeness auto
termination
  by (relation "measure length") (auto simp: CHUNKSIZE_def)

declare chunks.simps [simp del]

section \<open>Statement execution and the transaction block\<close>

text \<open>
  \<open>faulty\<close> lets the environment make any statement raise (a dropped connection, a
  lock timeout), so that an interrupted run is an input of the model.
\<close>

definition execute :: "stmt \<Rightarrow> ('c database \<Rightarrow> exn + 'c database) \<Rightarrow> 'c world \<Rightarrow> unit result \<times> 'c world" where
  "execute s f w =
     (let w1 = emit (Exec s) w in
      if faulty w s then (Raise OperationalError, w1)
      else case f (db w1) of
             Inl e \<Rightarrow> (Raise e, w1)
           | Inr d \<Rightarrow> (Return (), w1\<lparr>db := d\<rparr>))"

definition fetch :: "stmt \<Rightarrow> ('c database \<Rightarrow> 'a) \<Rightarrow> 'c world \<Rightarrow> 'a result \<times> 'c world" where
  "fetch s q w =
     (let w1 = emit (Exec s) w in
      if faulty w s then (Raise OperationalError, w1) else (Return (q (db w1)), w1))"

definition read_text :: "string \<Rightarrow> 'c world \<Rightarrow> string result \<times> 'c world" where
  "read_text path w =
     (case schema_file w of
        None \<Rightarrow> (Raise (FileNotFoundError path), emit (ReadFile path) w)
      | Some txt \<Rightarrow> (Return txt, emit (ReadFile path) w))"

text \<open>
  \<^verbatim>\<open>with engine.begin() as connection: body\<close>. Connecting may fail before any
  transaction exists. Leaving the block normally (also by \<^verbatim>\<open>return\<close>) commits; leaving it
  by any exception, \<^verbatim>\<open>SystemExit\<close> included, rolls the tables back. Values drawn from the
  tomogram id sequence are not given back by a rollback.
\<close>

definition rollback :: "'c database \<Rightarrow> 'c database \<Rightarrow> 'c database" where
  "rollback before now = before\<lparr>tomo_seq := tomo_seq now\<rparr>"

definition engine_begin :: "('c world \<Rightarrow> 'a result \<times> 'c world) \<Rightarrow> 'c world \<Rightarrow> 'a result \<times> 'c world" where
  "engine_begin body w =
     (if \<not> db_reachable w then (Raise OperationalError, emit DbConnect w)
      else case body (emit TxBegin (emit DbConnect w)) of
             (Return v, w1) \<Rightarrow> (Return v, emit TxCommit w1)
           | (Raise e, w1) \<Rightarrow> (Raise e, emit TxRollback (w1\<lparr>db := rollback (db w) (db w1)\<rparr>))
           | (SysExit n, w1) \<Rightarrow> (SysExit n, emit TxRollback (w1\<lparr>db := rollback (db w) (db w1)\<rparr>)))"

section \<open>ETL: \<^verbatim>\<open>main\<close>\<close>

fun to_sql_append :: "nat \<Rightarrow> 'c fact_row list list \<Rightarrow> 'c world \<Rightarrow> unit result \<times> 'c world" where
  "to_sql_append k [] w = (Return (), w)"
| "to_sql_append k (c # cs) w =
     then_do (execute (AppendAnnotations k) (insert_chunk c)) (\<lambda>_. to_sql_append (Suc k) cs) w"

definition load_labels :: "'c label_row list \<Rightarrow> 'c world \<Rightarrow> bool result \<times> 'c world" where
  "load_labels df_labels =
     (then_do (execute StageTomograms (\<lambda>d. Inr (stage_tomograms (unique_tomos df_labels) d))) (\<lambda>_.
      then_do (execute MergeTomograms insert_tomograms) (\<lambda>_.
      then_do (\<lambda>w. (Return (), emit (Log INFO ''Tomograms table synchronized.'') w)) (\<lambda>_.
      then_do (fetch ReadTomoMap select_tomo_map) (\<lambda>tomo_map_df.
      (let df_annotations = make_annotations tomo_map_df df_labels in
       then_do (\<lambda>w. (Return (), emit (Log INFO ''Clearing old annotations...'') w)) (\<lambda>_.
       then_do (execute TruncateAnnotations (\<lambda>d. Inr (truncate_annotations d))) (\<lambda>_.
       then_do (\<lambda>w. (Return (),
                  emit (Log INFO (''Loading '' @ str_nat (length df_annotations) @ '' new annotations...'')) w)) (\<lambda>_.
       then_do (to_sql_append 0 (chunks df_annotations)) (\<lambda>_ w. (Return True, w)))))))))))"

text \<open>
  The body of the \<^verbatim>\<open>with\<close> block. Its value tells how the block was left: \<open>False\<close> is
  the \<^verbatim>\<open>return\<close> on a missing CSV file, which leaves \<^verbatim>\<open>main\<close> as well; \<open>True\<close> is
  running off the end of the block.
\<close>

definition load_transaction :: "'c world \<Rightarrow> bool result \<times> 'c world" where
  "load_transaction =
     then_do (\<lambda>w. (Return (), emit (Log INFO ''Applying database schema...'') w)) (\<lambda>_.
     then_do (read_text ''/app/sql/schema.sql'') (\<lambda>ddl.
     then_do (execute SchemaDDL (\<lambda>d. Inr (apply_schema d))) (\<lambda>_ w.
       case labels_csv w of
         None \<Rightarrow>
           (Return False, emit (Log ERROR ''Source data file not found: /app/data/labels.csv. Aborting.'') w)
       | Some df_labels \<Rightarrow> load_labels df_labels w)))"

definition getitem :: "secret \<Rightarrow> string \<Rightarrow> 'c world \<Rightarrow> string result \<times> 'c world" where
  "getitem d k w = (case map_of d k of None \<Rightarrow> (Raise (KeyError k), w) | Some v \<Rightarrow> (Return v, w))"

definition database_url :: "string \<Rightarrow> string \<Rightarrow> string \<Rightarrow> string \<Rightarrow> string" where
  "database_url user password host name =
     ''postgresql://'' @ user @ '':'' @ password @ ''@'' @ host @ '':5432/'' @ name"

definition create_engine :: "secret \<Rightarrow> 'c world \<Rightarrow> unit result \<times> 'c world" where
  "create_engine db_creds =
     then_do (getitem db_creds ''POSTGRES_USER'') (\<lambda>DB_USER.
     then_do (getitem db_creds ''POSTGRES_PASSWORD'') (\<lambda>DB_PASSWORD.
     then_do (getitem db_creds ''POSTGRES_DB'') (\<lambda>DB_NAME w.
       case getenv ''DB_HOST'' w of
         (h, w1) \<Rightarrow>
           (Return (),
            emit (CreateEngine (database_url DB_USER DB_PASSWORD (case h of None \<Rightarrow> ''db'' | Some v \<Rightarrow> v) DB_NAME)) w1))))"

definition etl_try :: "'c world \<Rightarrow> unit result \<times> 'c world" where
  "etl_try =
     then_do (wait_for_vault [0..<5]) (\<lambda>_.
     then_do etl_get_db_credentials_from_vault (\<lambda>db_creds.
     then_do (create_engine db_creds) (\<lambda>_.
     then_do (engine_begin load_transaction) (\<lambda>completed w.
       if completed then (Return (), emit (Log INFO ''ETL pipeline completed successfully.'') w)
       else (Return (), w)))))"

text \<open>
  What the operating system sees: \<open>Finished\<close> is \<^verbatim>\<open>main()\<close> returning (exit status 0),
  \<open>Exited n\<close> is \<^verbatim>\<open>sys.exit(n)\<close>.
\<close>

datatype outcome = Finished | Exited int

definition exit_status :: "outcome \<Rightarrow> int" where
  "exit_status out = (case out of Finished \<Rightarrow> 0 | Exited n \<Rightarrow> n)"

definition etl_main :: "'c world \<Rightarrow> outcome \<times> 'c world" where
  "etl_main w =
     (case etl_try (emit (Log INFO ''Starting ETL pipeline...'') w) of
        (Return _, w1) \<Rightarrow> (Finished, w1)
      | (SysExit n, w1) \<Rightarrow> (Exited n, w1)
      | (Raise e, w1) \<Rightarrow>
          if e = OperationalError then
            (Exited 1,
             emit (LogExn ERROR ''Database connection failed: '' e
                     (''. Ensure the '' @ [CHR 0x27] @ ''db'' @ [CHR 0x27] @ '' container is running and healthy.'')) w1)
          else
            (Exited 1, emit (LogExn ERROR ''An error occurred during the ETL process: '' e '''') w1))"

section \<open>Query tool: start-up\<close>

definition query_get_db_credentials_from_vault :: "'c world \<Rightarrow> secret result \<times> 'c world" where
  "query_get_db_credentials_from_vault w =
     (case read_secret_version VAULT_SECRET_PATH w of
        (Found d, w1) \<Rightarrow> (Return d, w1)
      | (InvalidPath, w1) \<Rightarrow>
          (SysExit 1,
           emit (Log ERROR ''FATAL: Secrets not found in Vault. Please run the ETL script first to initialize them.'') w1)
      | (ReadError, w1) \<Rightarrow>
          (SysExit 1, emit (LogExn ERROR ''FATAL: Could not retrieve secrets from Vault: '' VaultFailure '''') w1))"

text \<open>The module-level \<^verbatim>\<open>try\<close> block that builds \<^verbatim>\<open>ENGINE\<close> when the tool is loaded.\<close>

definition query_module_init :: "'c world \<Rightarrow> unit result \<times> 'c world" where
  "query_module_init w =
     (case then_do (wait_for_vault [0..<5]) (\<lambda>_.
           then_do query_get_db_credentials_from_vault (\<lambda>db_creds.
           create_engine db_creds)) w of
        (Raise e, w1) \<Rightarrow>
          (SysExit 1, emit (PrintErr ''Failed to establish database connection via Vault: '' e) w1)
      | (Return v, w1) \<Rightarrow> (Return v, w1)
      | (SysExit n, w1) \<Rightarrow> (SysExit n, w1))"

section \<open>Query tool: the two aggregate queries\<close>

text \<open>The inner join of tomograms and annotations on \<open>tomo_id\<close>.\<close>

definition joined :: "'c database \<Rightarrow> (tomogram \<times> 'c annotation) list" where
  "joined d =
     concat (map (\<lambda>t. map (\<lambda>a. (t, a)) (filter (\<lambda>a. ann_tomo_id a = tomo_id t) (annotations d)))
                 (tomograms d))"

text \<open>
  \<^verbatim>\<open>SELECT COUNT(a.annotation_id) FROM annotations a JOIN tomograms t ON ... WHERE t.tomo_name = :tomo_name\<close>:
  an aggregate without \<^verbatim>\<open>GROUP BY\<close> yields one row.
\<close>

definition count_of :: "'c database \<Rightarrow> string \<Rightarrow> nat" where
  "count_of d name = length (filter (\<lambda>(t, a). tomo_name t = name) (joined d))"

definition count_query :: "string \<Rightarrow> 'c database \<Rightarrow> nat list" where
  "count_query name d = [count_of d name]"

definition scalar_one_or_none :: "'a list \<Rightarrow> 'c world \<Rightarrow> 'a option result \<times> 'c world" where
  "scalar_one_or_none rows w =
     (case rows of
        [] \<Rightarrow> (Return None, w)
      | [v] \<Rightarrow> (Return (Some v), w)
      | _ \<Rightarrow> (Raise MultipleResultsFound, w))"

text \<open>\<^verbatim>\<open>result or 0\<close>.\<close>

definition or_zero :: "nat option \<Rightarrow> nat" where
  "or_zero r = (case r of None \<Rightarrow> 0 | Some n \<Rightarrow> if n = 0 then 0 else n)"

definition connect :: "'c world \<Rightarrow> unit result \<times> 'c world" where
  "connect w =
     (if db_reachable w then (Return (), emit DbConnect w) else (Raise OperationalError, emit DbConnect w))"

definition count_annotations :: "string \<Rightarrow> 'c world \<Rightarrow> unit result \<times> 'c world" where
  "count_annotations name =
     then_do connect (\<lambda>_.
     then_do (fetch CountQuery (count_query name)) (\<lambda>rows.
     then_do (scalar_one_or_none rows) (\<lambda>result w.
       (Return (),
        emit (Print (''Tomogram '' @ [CHR 0x27] @ name @ [CHR 0x27] @ '' has '' @ str_nat (or_zero result)
                       @ '' annotations.'')) w))))"

text \<open>
  \<^verbatim>\<open>SELECT t.tomo_name, COUNT(a.annotation_id) ... GROUP BY t.tomo_name HAVING COUNT(...) > :min_annotations ORDER BY annotation_count DESC\<close>,
  clause by clause: join, group, count, filter, sort.
\<close>

definition rich_query :: "int \<Rightarrow> 'c database \<Rightarrow> (string \<times> nat) list" where
  "rich_query min_annotations d =
     (let rows = joined d;
          groups = unique (map (\<lambda>(t, a). tomo_name t) rows);
          counted = map (\<lambda>n. (n, length (filter (\<lambda>(t, a). tomo_name t = n) rows))) groups;
          having = filter (\<lambda>(n, c). int c > min_annotations) counted
      in sort_key (\<lambda>(n, c). - int c) having)"

definition str_int :: "int \<Rightarrow> string" where
  "str_int i = (if i < 0 then ''-'' @ str_nat (nat (- i)) else str_nat (nat i))"

definition find_rich_tomograms :: "int \<Rightarrow> 'c world \<Rightarrow> unit result \<times> 'c world" where
  "find_rich_tomograms min_annotations =
     then_do connect (\<lambda>_.
     then_do (fetch RichQuery (rich_query min_annotations)) (\<lambda>df w.
       (Return (),
        emit (if df \<noteq> [] then PrintTable df
              else Print (''No tomograms found with > '' @ str_int min_annotations @ '' annotations.'')) w)))"

text \<open>
  The parsed command line. The third subcommand (\<^verbatim>\<open>visualize\<close>) loads a volume and
  renders an image; it takes no part in the properties below and is left out.
\<close>

datatype command = CountAnnotations string | FindRichTomograms int

definition query_main :: "command \<Rightarrow> 'c world \<Rightarrow> outcome \<times> 'c world" where
  "query_main cmd w =
     (case (case cmd of
              CountAnnotations name \<Rightarrow> count_annotations name w
            | FindRichTomograms m \<Rightarrow> find_rich_tomograms m w) of
        (Return _, w1) \<Rightarrow> (Finished, w1)
      | (SysExit n, w1) \<Rightarrow> (Exited n, w1)
      | (Raise e, w1) \<Rightarrow>
          if e = OperationalError then (Exited 1, emit (PrintErr ''Database connection failed: '' e) w1)
          else (Exited 1, emit (PrintErr ''A critical error occurred: '' e) w1))"

definition query_tool :: "command \<Rightarrow> 'c world \<Rightarrow> outcome \<times> 'c world" where
  "query_tool cmd w =
     (case query_module_init w of
        (Return _, w1) \<Rightarrow> query_main cmd w1
      | (SysExit n, w1) \<Rightarrow> (Exited n, w1)
      | (Raise e, w1) \<Rightarrow> (Exited 1, w1))"

section \<open>Notions used to state the properties\<close>

text \<open>One failed attempt of the readiness loop: a poll, the log line, the pause.\<close>

definition waiting :: "nat \<Rightarrow> event list" where
  "waiting i =
     [HealthPoll, Log INFO (''Waiting for Vault to be ready... ('' @ str_nat (i + 1) @ ''/5)''), Sleep 2]"

text \<open>Events that reach the database.\<close>

fun is_db_event :: "event \<Rightarrow> bool" where
  "is_db_event (CreateEngine u) = True"
| "is_db_event DbConnect = True"
| "is_db_event TxBegin = True"
| "is_db_event TxCommit = True"
| "is_db_event TxRollback = True"
| "is_db_event (Exec s) = True"
| "is_db_event e = False"

text \<open>What the programs only read: two states with the same inputs differ in what was written.\<close>

definition same_env :: "'c world \<Rightarrow> 'c world \<Rightarrow> bool" where
  "same_env w w' =
     (health w' = health w \<and> vault_read_fails w' = vault_read_fails w
      \<and> vault_write_fails w' = vault_write_fails w \<and> environ w' = environ w
      \<and> schema_file w' = schema_file w \<and> labels_csv w' = labels_csv w
      \<and> db_reachable w' = db_reachable w \<and> faulty w' = faulty w)"

text \<open>Every annotation row refers to a tomogram row.\<close>

definition ref_ok :: "'c database \<Rightarrow> bool" where
  "ref_ok d = list_all (\<lambda>a. ann_tomo_id a \<in> set (map tomo_id (tomograms d))) (annotations d)"

text \<open>The tables hold the same rows (the id sequence may have moved on).\<close>

definition same_rows :: "'c database \<Rightarrow> 'c database \<Rightarrow> bool" where
  "same_rows d d' =
     (schema_runs d' = schema_runs d \<and> tomograms d' = tomograms d \<and> annotations d' = annotations d)"

section \<open>Concrete states\<close>

definition stored_secret :: secret where
  "stored_secret = [(''POSTGRES_USER'', ''cryo''), (''POSTGRES_PASSWORD'', ''pw''), (''POSTGRES_DB'', ''tomo'')]"

definition empty_db :: "int database" where
  "empty_db = \<lparr>schema_runs = 0, tomograms = [], tomo_seq = 0, temp_tomograms = None,
                annotations = [], ann_seq = 0\<rparr>"

definition sample_labels :: "int label_row list" where
  "sample_labels =
     [\<lparr>label_tomo_name = ''A'', label_x = 1, label_y = 2, label_z = 3\<rparr>,
      \<lparr>label_tomo_name = ''B'', label_x = 4, label_y = 5, label_z = 6\<rparr>,
      \<lparr>label_tomo_name = ''A'', label_x = 7, label_y = 8, label_z = 9\<rparr>]"

text \<open>A first run: nothing stored in Vault, the three variables set, everything reachable.\<close>

definition fresh_world :: "int world" where
  "fresh_world =
     \<lparr>health = (\<lambda>_. Healthy), polls = 0, vault = [], vault_read_fails = False,
      vault_write_fails = False,
      environ = [(''POSTGRES_USER'', ''cryo''), (''POSTGRES_PASSWORD'', ''pw''), (''POSTGRES_DB'', ''tomo'')],
      schema_file = Some ''CREATE TABLE IF NOT EXISTS tomograms ();'',
      labels_csv = Some sample_labels, db_reachable = True, faulty = (\<lambda>_. False),
      db = empty_db, trace = []\<rparr>"

text \<open>Steady state: the secret is stored and the environment holds none of the variables.\<close>

definition steady_world :: "int world" where
  "steady_world = fresh_world\<lparr>vault := [(''cryoet'', stored_secret)], environ := []\<rparr>"

text \<open>Vault never answers healthy; Vault answers healthy at the third poll.\<close>

definition down_world :: "int world" where
  "down_world = fresh_world\<lparr>health := (\<lambda>_. Unhealthy)\<rparr>"

definition slow_world :: "int world" where
  "slow_world = fresh_world\<lparr>health := (\<lambda>n. if n < 2 then Unhealthy else Healthy)\<rparr>"

text \<open>A first run with two of the three variables missing; a run whose CSV file is missing.\<close>

definition no_env_world :: "int world" where
  "no_env_world = fresh_world\<lparr>environ := [(''POSTGRES_USER'', ''cryo'')]\<rparr>"

definition no_csv_world :: "int world" where
  "no_csv_world = steady_world\<lparr>labels_csv := None\<rparr>"

text \<open>
  A store that holds an earlier load, a second CSV snapshot, and a run over it whose first
  batch of annotations is interrupted by the database.
\<close>

definition loaded_db :: "int database" where
  "loaded_db =
     \<lparr>schema_runs = 1,
      tomograms = [\<lparr>tomo_id = 1, tomo_name = ''A'', raw_volume_path = ''volumes/A.mrc''\<rparr>,
                   \<lparr>tomo_id = 2, tomo_name = ''B'', raw_volume_path = ''volumes/B.mrc''\<rparr>],
      tomo_seq = 2,
      temp_tomograms = Some [(''A'', ''volumes/A.mrc''), (''B'', ''volumes/B.mrc'')],
      annotations = [\<lparr>annotation_id = 1, ann_tomo_id = 1, coord_x = 1, coord_y = 2, coord_z = 3\<rparr>,
                     \<lparr>annotation_id = 2, ann_tomo_id = 2, coord_x = 4, coord_y = 5, coord_z = 6\<rparr>,
                     \<lparr>annotation_id = 3, ann_tomo_id = 1, coord_x = 7, coord_y = 8, coord_z = 9\<rparr>],
      ann_seq = 3\<rparr>"

definition next_labels :: "int label_row list" where
  "next_labels =
     [\<lparr>label_tomo_name = ''A'', label_x = 1, label_y = 1, label_z = 1\<rparr>,
      \<lparr>label_tomo_name = ''C'', label_x = 2, label_y = 2, label_z = 2\<rparr>]"

definition retry_world :: "int world" where
  "retry_world = steady_world\<lparr>labels_csv := Some next_labels, db := loaded_db\<rparr>"

definition interrupted_world :: "int world" where
  "interrupted_world = retry_world\<lparr>faulty := (\<lambda>s. s = AppendAnnotations 0)\<rparr>"

text \<open>The loaded store with one more tomogram that has no annotation.\<close>

definition sparse_db :: "int database" where
  "sparse_db = loaded_db\<lparr>tomograms := tomograms loaded_db @
      [\<lparr>tomo_id = 3, tomo_name = ''C'', raw_volume_path = ''volumes/C.mrc''\<rparr>], tomo_seq := 3\<rparr>"

definition query_world :: "int world" where
  "query_world = steady_world\<lparr>db := sparse_db\<rparr>"

text \<open>
  Vault cannot be reached at all (every poll raises); Vault answers unhealthy once, cannot
  be reached at the second poll and would answer healthy from the third poll on.
\<close>

definition unreachable_world :: "int world" where
  "unreachable_world = fresh_world\<lparr>health := (\<lambda>_. Unreachable)\<rparr>"

definition flaky_world :: "int world" where
  "flaky_world =
     fresh_world\<lparr>health := (\<lambda>n. if n = 0 then Unhealthy else if n = 1 then Unreachable else Healthy)\<rparr>"

section \<open>Readiness loop\<close>

lemma range_5: "[0..<5] = [0, 1, 2, 3, 4::nat]"
  by (simp add: upt_rec)

lemma wait_all_unhealthy:
  "\<forall>k < length xs. health w (polls w + k) = Unhealthy \<Longrightarrow>
   wait_for_vault xs w =
     (Raise VaultNotAvailable, w\<lparr>polls := polls w + length xs, trace := trace w @ concat (map waiting xs)\<rparr>)"
proof (induction xs arbitrary: w)
  case Nil
  then show ?case by simp
next
  case (Cons i rest)
  from Cons.prems have h0: "health w (polls w) = Unhealthy" by force
  let ?w1 = "emit (Sleep 2) (emit (Log INFO (''Waiting for Vault to be ready... ('' @ str_nat (i + 1) @ ''/5)''))
                (emit HealthPoll (w\<lparr>polls := Suc (polls w)\<rparr>)))"
  have "\<forall>k < length rest. health ?w1 (polls ?w1 + k) = Unhealthy"
    using Cons.prems by (auto simp: emit_def)
  from Cons.IH [OF this] show ?case
    using h0 by (simp add: read_health_status_def emit_def waiting_def)
qed

lemma wait_first_healthy:
  "k < length xs \<Longrightarrow> \<forall>j < k. health w (polls w + j) = Unhealthy \<Longrightarrow> health w (polls w + k) = Healthy \<Longrightarrow>
   wait_for_vault xs w =
     (Return (), w\<lparr>polls := polls w + k + 1, trace := trace w @ concat (map waiting (take k xs)) @ [HealthPoll]\<rparr>)"
proof (induction xs arbitrary: w k)
  case Nil
  then show ?case by simp
next
  case (Cons i rest)
  show ?case
  proof (cases k)
    case 0
    with Cons.prems show ?thesis by (simp add: read_health_status_def emit_def)
  next
    case (Suc k')
    from Cons.prems Suc have h0: "health w (polls w) = Unhealthy" by force
    let ?w1 = "emit (Sleep 2) (emit (Log INFO (''Waiting for Vault to be ready... ('' @ str_nat (i + 1) @ ''/5)''))
                (emit HealthPoll (w\<lparr>polls := Suc (polls w)\<rparr>)))"
    have a: "k' < length rest" using Cons.prems Suc by simp
    have b: "\<forall>j < k'. health ?w1 (polls ?w1 + j) = Unhealthy"
      using Cons.prems Suc by (auto simp: emit_def)
    have c: "health ?w1 (polls ?w1 + k') = Healthy"
      using Cons.prems Suc by (auto simp: emit_def)
    from Cons.IH [OF a b c] show ?thesis
      using h0 Suc by (simp add: read_health_status_def emit_def waiting_def)
  qed
qed

lemma wait_first_unreachable:
  "k < length xs \<Longrightarrow> \<forall>j < k. health w (polls w + j) = Unhealthy \<Longrightarrow> health w (polls w + k) = Unreachable \<Longrightarrow>
   wait_for_vault xs w =
     (Raise VaultFailure,
      w\<lparr>polls := polls w + k + 1, trace := trace w @ concat (map waiting (take k xs)) @ [HealthPoll]\<rparr>)"
proof (induction xs arbitrary: w k)
  case Nil
  then show ?case by simp
next
  case (Cons i rest)
  show ?case
  proof (cases k)
    case 0
    with Cons.prems show ?thesis by (simp add: read_health_status_def emit_def)
  next
    case (Suc k')
    from Cons.prems Suc have h0: "health w (polls w) = Unhealthy" by force
    let ?w1 = "emit (Sleep 2) (emit (Log INFO (''Waiting for Vault to be ready... ('' @ str_nat (i + 1) @ ''/5)''))
                (emit HealthPoll (w\<lparr>polls := Suc (polls w)\<rparr>)))"
    have a: "k' < length rest" using Cons.prems Suc by simp
    have b: "\<forall>j < k'. health ?w1 (polls ?w1 + j) = Unhealthy"
      using Cons.prems Suc by (auto simp: emit_def)
    have c: "health ?w1 (polls ?w1 + k') = Unreachable"
      using Cons.prems Suc by (auto simp: emit_def)
    from Cons.IH [OF a b c] show ?thesis
      using h0 Suc by (simp add: read_health_status_def emit_def waiting_def)
  qed
qed

lemma is_db_event_waiting: "\<not> list_ex is_db_event (concat (map waiting xs))"
  by (induction xs) (simp_all add: waiting_def)

section \<open>What each step leaves alone\<close>

lemma same_env_refl [simp]: "same_env w w"
  by (simp add: same_env_def)

lemma same_env_trans: "same_env a b \<Longrightarrow> same_env b c \<Longrightarrow> same_env a c"
  by (simp add: same_env_def)

lemma then_do_Return:
  "then_do m f w = (Return v, w') \<longleftrightarrow> (\<exists>x w1. m w = (Return x, w1) \<and> f x w1 = (Return v, w'))"
  by (auto simp: then_do_def split: prod.splits result.splits)

lemma wait_keeps:
  "same_env w (snd (wait_for_vault xs w)) \<and> db (snd (wait_for_vault xs w)) = db w
     \<and> vault (snd (wait_for_vault xs w)) = vault w"
proof (induction xs arbitrary: w)
  case Nil
  show ?case by simp
next
  case (Cons i rest)
  let ?w1 = "emit (Sleep 2) (emit (Log INFO (''Waiting for Vault to be ready... ('' @ str_nat (i + 1) @ ''/5)''))
                (emit HealthPoll (w\<lparr>polls := Suc (polls w)\<rparr>)))"
  have "same_env w ?w1 \<and> db ?w1 = db w \<and> vault ?w1 = vault w"
    by (simp add: same_env_def emit_def)
  with Cons.IH [of ?w1]
  have "same_env w (snd (wait_for_vault rest ?w1)) \<and> db (snd (wait_for_vault rest ?w1)) = db w
          \<and> vault (snd (wait_for_vault rest ?w1)) = vault w"
    by (auto intro: same_env_trans)
  then show ?case
    by (cases "health w (polls w)") (simp_all add: read_health_status_def same_env_def emit_def)
qed

lemma gate_keeps:
  assumes "wait_for_vault xs (emit e w) = (r, w1)"
  shows "same_env w w1 \<and> db w1 = db w \<and> vault w1 = vault w"
  using wait_keeps [of "emit e w" xs] assms by (simp add: same_env_def emit_def)

lemma creds_keeps:
  "same_env w (snd (etl_get_db_credentials_from_vault w)) \<and> db (snd (etl_get_db_credentials_from_vault w)) = db w"
  by (simp add: etl_get_db_credentials_from_vault_def read_secret_version_def getenv_def
        create_or_update_secret_def Let_def same_env_def emit_def split: option.splits)

lemma engine_keeps:
  "same_env w (snd (create_engine c w)) \<and> db (snd (create_engine c w)) = db w
     \<and> vault (snd (create_engine c w)) = vault w"
  by (simp add: create_engine_def then_do_def getitem_def getenv_def same_env_def emit_def
        split: option.splits)

section \<open>The steps of \<^verbatim>\<open>main\<close> before the transaction\<close>

lemma etl_try_found:
  assumes g: "wait_for_vault [0..<5] (emit (Log INFO ''Starting ETL pipeline...'') w) = (Return (), w1)"
    and v: "\<not> vault_read_fails w" "map_of (vault w) VAULT_SECRET_PATH = Some c"
    and k: "map_of c ''POSTGRES_USER'' = Some u" "map_of c ''POSTGRES_PASSWORD'' = Some p"
           "map_of c ''POSTGRES_DB'' = Some d"
  shows "etl_try (emit (Log INFO ''Starting ETL pipeline...'') w) =
         then_do (engine_begin load_transaction)
           (\<lambda>completed w.
               if completed then (Return (), emit (Log INFO ''ETL pipeline completed successfully.'') w)
               else (Return (), w))
           (w1\<lparr>trace := trace w1 @
               [VaultRead VAULT_SECRET_PATH, GetEnv ''DB_HOST'',
                CreateEngine (database_url u p (case map_of (environ w) ''DB_HOST'' of None \<Rightarrow> ''db'' | Some h \<Rightarrow> h) d)]\<rparr>)"
proof -
  from gate_keeps [OF g]
  have "vault_read_fails w1 = vault_read_fails w" "vault w1 = vault w" "environ w1 = environ w"
    by (simp_all add: same_env_def)
  with g v k show ?thesis
    by (simp add: etl_try_def then_do_def etl_get_db_credentials_from_vault_def read_secret_version_def
          create_engine_def getitem_def getenv_def emit_def)
qed

section \<open>The statements of the load\<close>

lemma merge_rows_prefix:
  "\<exists>new. fst (merge_rows rows ts s) = ts @ new \<and> set (map tomo_name new) \<inter> set (map tomo_name ts) = {}"
proof (induction rows ts s rule: merge_rows.induct)
  case (1 ts s)
  show ?case by simp
next
  case (2 n p rest ts s)
  show ?case
  proof (cases "n \<in> set (map tomo_name ts)")
    case True
    with 2 show ?thesis by simp
  next
    case False
    let ?t = "\<lparr>tomo_id = Suc s, tomo_name = n, raw_volume_path = p\<rparr>"
    from 2(2) [OF False] obtain new where
      "fst (merge_rows rest (ts @ [?t]) (Suc s)) = (ts @ [?t]) @ new"
      "set (map tomo_name new) \<inter> set (map tomo_name (ts @ [?t])) = {}" by blast
    with False show ?thesis by (intro exI [of _ "?t # new"]) auto
  qed
qed

lemma merge_rows_names:
  "set (map tomo_name (fst (merge_rows rows ts s))) = set (map tomo_name ts) \<union> set (map fst rows)"
  by (induction rows ts s rule: merge_rows.induct) auto

lemma merge_rows_noop:
  "set (map fst rows) \<subseteq> set (map tomo_name ts) \<Longrightarrow> fst (merge_rows rows ts s) = ts"
  by (induction rows ts s rule: merge_rows.induct) auto

lemma merge_rows_seq: "snd (merge_rows rows ts s) = s + length rows"
  by (induction rows ts s rule: merge_rows.induct) auto

lemma set_unique: "set (unique xs) = set xs"
  by (induction xs rule: unique.induct) auto

lemma distinct_unique: "distinct (unique xs)"
  by (induction xs rule: unique.induct) (auto simp: set_unique)

lemma unique_tomos_names: "set (map fst (unique_tomos rows)) = set (map label_tomo_name rows)"
  by (simp add: unique_tomos_def set_unique comp_def)

lemma py_dict_Some:
  "k \<in> set (map fst kvs) \<Longrightarrow> \<exists>v. py_dict kvs k = Some v \<and> (k, v) \<in> set kvs"
proof -
  assume "k \<in> set (map fst kvs)"
  then have "map_of (rev kvs) k \<noteq> None" by (simp add: map_of_eq_None_iff)
  then obtain v where v: "map_of (rev kvs) k = Some v" by blast
  then have "(k, v) \<in> set (rev kvs)" by (rule map_of_SomeD)
  with v show ?thesis by (auto simp: py_dict_def)
qed

lemma zip_tomo_map:
  "zip (map snd (select_tomo_map d)) (map fst (select_tomo_map d)) = map (\<lambda>t. (tomo_name t, tomo_id t)) (tomograms d)"
  by (simp add: select_tomo_map_def zip_map_map comp_def zip_same_conv_map)

lemma make_annotations_fk:
  assumes "set (map label_tomo_name rows) \<subseteq> set (map tomo_name (tomograms d))"
    and "tomograms d' = tomograms d"
  shows "list_all (fk_ok d') (make_annotations (select_tomo_map d) rows)"
proof -
  have "fk_ok d' \<lparr>fact_tomo_id = py_dict (map (\<lambda>t. (tomo_name t, tomo_id t)) (tomograms d)) (label_tomo_name r),
               fact_x = label_x r, fact_y = label_y r, fact_z = label_z r\<rparr>" if "r \<in> set rows" for r
  proof -
    from that assms have "label_tomo_name r \<in> set (map fst (map (\<lambda>t. (tomo_name t, tomo_id t)) (tomograms d)))"
      by (auto simp: comp_def)
    from py_dict_Some [OF this] obtain v where
      "py_dict (map (\<lambda>t. (tomo_name t, tomo_id t)) (tomograms d)) (label_tomo_name r) = Some v"
      "(label_tomo_name r, v) \<in> set (map (\<lambda>t. (tomo_name t, tomo_id t)) (tomograms d))" by blast
    then show ?thesis using assms(2) by (auto simp: fk_ok_def)
  qed
  then show ?thesis
    by (simp add: make_annotations_def zip_tomo_map list_all_iff)
qed

lemma concat_chunks: "concat (chunks xs) = xs"
  by (induction xs rule: chunks.induct) (subst chunks.simps, simp)

lemma number_rows_fk:
  "list_all (fk_ok d) rs \<Longrightarrow> list_all (\<lambda>a. ann_tomo_id a \<in> set (map tomo_id (tomograms d))) (number_rows s rs)"
  by (induction rs arbitrary: s) (auto simp: fk_ok_def split: option.splits)

lemma number_rows_append:
  "number_rows s (xs @ ys) = number_rows s xs @ number_rows (s + length xs) ys"
  by (induction xs arbitrary: s) auto

lemma execute_Return:
  "execute s f w = (Return u, w') \<Longrightarrow>
   \<not> faulty w s \<and> f (db w) = Inr (db w') \<and> w' = (emit (Exec s) w)\<lparr>db := db w'\<rparr>"
  by (auto simp: execute_def Let_def emit_def split: if_splits sum.splits)

lemma fetch_Return:
  "fetch s q w = (Return v, w') \<Longrightarrow> \<not> faulty w s \<and> v = q (db w) \<and> w' = emit (Exec s) w"
  by (auto simp: fetch_def Let_def emit_def split: if_splits)

lemma fk_ok_tomograms: "tomograms d' = tomograms d \<Longrightarrow> fk_ok d' = fk_ok d"
  by (rule ext) (auto simp: fk_ok_def split: option.splits)

lemma to_sql_append_Return:
  "to_sql_append k cs w = (Return u, w') \<Longrightarrow>
     tomograms (db w') = tomograms (db w) \<and> schema_runs (db w') = schema_runs (db w)
   \<and> annotations (db w') = annotations (db w) @ number_rows (ann_seq (db w)) (concat cs)
   \<and> ann_seq (db w') = ann_seq (db w) + length (concat cs)
   \<and> list_all (fk_ok (db w)) (concat cs)"
proof (induction cs arbitrary: k w)
  case Nil
  then show ?case by simp
next
  case (Cons c cs)
  from Cons.prems obtain u1 w1 where
    e: "execute (AppendAnnotations k) (insert_chunk c) w = (Return u1, w1)" and
    r: "to_sql_append (Suc k) cs w1 = (Return u, w')"
    by (auto simp: then_do_Return)
  from execute_Return [OF e] have i: "insert_chunk c (db w) = Inr (db w1)" by simp
  then have ok: "list_all (fk_ok (db w)) c"
    and d1: "db w1 = (db w)\<lparr>annotations := annotations (db w) @ number_rows (ann_seq (db w)) c,
                            ann_seq := ann_seq (db w) + length c\<rparr>"
    by (auto simp: insert_chunk_def split: if_splits)
  have fk: "fk_ok (db w1) = fk_ok (db w)" using d1 by (intro fk_ok_tomograms) simp
  from Cons.IH [OF r] d1 ok fk show ?case
    by (simp add: number_rows_append add.assoc)
qed

lemma to_sql_append_ok:
  "\<forall>k. \<not> faulty w (AppendAnnotations k) \<Longrightarrow> list_all (fk_ok (db w)) (concat cs) \<Longrightarrow>
   \<exists>w'. to_sql_append k cs w = (Return (), w') \<and> faulty w' = faulty w"
proof (induction cs arbitrary: k w)
  case Nil
  then show ?case by simp
next
  case (Cons c cs)
  let ?d1 = "(db w)\<lparr>annotations := annotations (db w) @ number_rows (ann_seq (db w)) c,
                            ann_seq := ann_seq (db w) + length c\<rparr>"
  let ?w1 = "(emit (Exec (AppendAnnotations k)) w)\<lparr>db := ?d1\<rparr>"
  have e: "execute (AppendAnnotations k) (insert_chunk c) w = (Return (), ?w1)"
    using Cons.prems by (simp add: execute_def insert_chunk_def emit_def)
  have fk: "fk_ok (db ?w1) = fk_ok (db w)" by (intro fk_ok_tomograms) (simp add: emit_def)
  have "\<forall>k. \<not> faulty ?w1 (AppendAnnotations k)" using Cons.prems by (simp add: emit_def)
  moreover have "list_all (fk_ok (db ?w1)) (concat cs)" using Cons.prems fk by simp
  ultimately obtain w' where "to_sql_append (Suc k) cs ?w1 = (Return (), w')" "faulty w' = faulty ?w1"
    using Cons.IH by blast
  with e show ?case by (simp add: then_do_def emit_def)
qed

lemma same_rows_refl [simp]: "same_rows d d"
  by (simp add: same_rows_def)

lemma load_labels_Return:
  assumes "load_labels rows w = (Return b, w')"
  shows "b \<and> tomograms (db w') = fst (merge_rows (unique_tomos rows) (tomograms (db w)) (tomo_seq (db w)))
       \<and> schema_runs (db w') = schema_runs (db w)
       \<and> annotations (db w') = number_rows 0 (make_annotations (select_tomo_map (db w')) rows)
       \<and> ref_ok (db w')"
proof -
  from assms obtain u1 w1 u2 w2 u3 w3 m w4 u5 w5 u6 w6 u7 w7 u8 w8 where
    e1: "execute StageTomograms (\<lambda>d. Inr (stage_tomograms (unique_tomos rows) d)) w = (Return u1, w1)" and
    e2: "execute MergeTomograms insert_tomograms w1 = (Return u2, w2)" and
    e3: "(Return (), emit (Log INFO ''Tomograms table synchronized.'') w2) = (Return u3, w3)" and
    e4: "fetch ReadTomoMap select_tomo_map w3 = (Return m, w4)" and
    e5: "(Return (), emit (Log INFO ''Clearing old annotations...'') w4) = (Return u5, w5)" and
    e6: "execute TruncateAnnotations (\<lambda>d. Inr (truncate_annotations d)) w5 = (Return u6, w6)" and
    e7: "(Return (), emit (Log INFO (''Loading '' @ str_nat (length (make_annotations m rows)) @ '' new annotations...'')) w6)
           = (Return u7, w7)" and
    e8: "to_sql_append 0 (chunks (make_annotations m rows)) w7 = (Return u8, w8)" and
    e9: "(Return True, w8) = (Return b, w')"
    unfolding load_labels_def Let_def then_do_Return by blast
  from execute_Return [OF e1] have d1: "db w1 = stage_tomograms (unique_tomos rows) (db w)" by simp
  from execute_Return [OF e2] have "insert_tomograms (db w1) = Inr (db w2)" by simp
  with d1 have "db w2 = (db w)\<lparr>temp_tomograms := Some (unique_tomos rows),
      tomograms := fst (merge_rows (unique_tomos rows) (tomograms (db w)) (tomo_seq (db w))),
      tomo_seq := snd (merge_rows (unique_tomos rows) (tomograms (db w)) (tomo_seq (db w)))\<rparr>"
    by (auto simp: insert_tomograms_def stage_tomograms_def split: prod.splits)
  then have d2: "tomograms (db w2) = fst (merge_rows (unique_tomos rows) (tomograms (db w)) (tomo_seq (db w)))"
    "schema_runs (db w2) = schema_runs (db w)"
    by simp_all
  from e3 have d3: "db w3 = db w2" by (auto simp: emit_def)
  from fetch_Return [OF e4] have m: "m = select_tomo_map (db w3)" and d4: "db w4 = db w3"
    by (simp_all add: emit_def)
  from e5 have d5: "db w5 = db w4" by (auto simp: emit_def)
  from execute_Return [OF e6] have d6: "db w6 = truncate_annotations (db w5)" by simp
  from e7 have d7: "db w7 = db w6" by (auto simp: emit_def)
  from e9 have b: "b" and w': "w' = w8" by simp_all
  from to_sql_append_Return [OF e8]
  have t8: "tomograms (db w8) = tomograms (db w7)" and s8: "schema_runs (db w8) = schema_runs (db w7)"
    and a8: "annotations (db w8) = annotations (db w7) @ number_rows (ann_seq (db w7)) (concat (chunks (make_annotations m rows)))"
    and f8: "list_all (fk_ok (db w7)) (concat (chunks (make_annotations m rows)))"
    by simp_all
  have t7: "tomograms (db w7) = tomograms (db w2)" "schema_runs (db w7) = schema_runs (db w2)"
    "annotations (db w7) = []" "ann_seq (db w7) = 0"
    using d3 d4 d5 d6 d7 by (simp_all add: truncate_annotations_def)
  have sm: "select_tomo_map (db w8) = m"
    using m d3 t8 t7 by (simp add: select_tomo_map_def)
  have a: "annotations (db w8) = number_rows 0 (make_annotations m rows)"
    using a8 t7 by (simp add: concat_chunks)
  have "fk_ok (db w8) = fk_ok (db w7)" using t8 by (rule fk_ok_tomograms)
  with f8 have "list_all (fk_ok (db w8)) (make_annotations m rows)" by (simp add: concat_chunks)
  from number_rows_fk [OF this, of 0] a have "ref_ok (db w8)" by (simp add: ref_ok_def)
  with b w' d2 t7 t8 s8 a sm show ?thesis by simp
qed

lemma load_transaction_Return:
  assumes "load_transaction w = (Return b, w')"
  shows "(labels_csv w = None \<and> \<not> b \<and> db w' = apply_schema (db w))
       \<or> (\<exists>rows w2. labels_csv w = Some rows \<and> db w2 = apply_schema (db w) \<and> load_labels rows w2 = (Return b, w'))"
proof -
  from assms obtain u1 w1 ddl w2 u3 w3 where
    e1: "(Return (), emit (Log INFO ''Applying database schema...'') w) = (Return u1, w1)" and
    e2: "read_text ''/app/sql/schema.sql'' w1 = (Return ddl, w2)" and
    e3: "execute SchemaDDL (\<lambda>d. Inr (apply_schema d)) w2 = (Return u3, w3)" and
    e4: "(case labels_csv w3 of
            None \<Rightarrow> (Return False, emit (Log ERROR ''Source data file not found: /app/data/labels.csv. Aborting.'') w3)
          | Some df_labels \<Rightarrow> load_labels df_labels w3) = (Return b, w')"
    unfolding load_transaction_def then_do_Return by blast
  from e1 have w1: "w1 = emit (Log INFO ''Applying database schema...'') w" by simp
  from e2 have w2: "w2 = emit (ReadFile ''/app/sql/schema.sql'') w1"
    by (auto simp: read_text_def split: option.splits)
  from execute_Return [OF e3] have d3: "db w3 = apply_schema (db w2)" and
    w3: "w3 = (emit (Exec SchemaDDL) w2)\<lparr>db := db w3\<rparr>" by simp_all
  have c3: "labels_csv w3 = labels_csv w" by (subst w3) (simp add: w1 w2 emit_def)
  have d: "db w3 = apply_schema (db w)" using d3 by (simp add: w1 w2 emit_def)
  show ?thesis
  proof (cases "labels_csv w")
    case None
    with e4 c3 d show ?thesis by (auto simp: emit_def)
  next
    case (Some rows)
    with e4 c3 d show ?thesis by auto
  qed
qed

lemma engine_begin_rollback:
  "\<forall>v. fst (engine_begin body w) \<noteq> Return v \<Longrightarrow> same_rows (db w) (db (snd (engine_begin body w)))"
  by (auto simp: engine_begin_def same_rows_def rollback_def emit_def split: prod.splits result.splits if_splits)

lemma engine_begin_Return:
  "engine_begin body w = (Return v, w') \<Longrightarrow>
   \<exists>w1. body (emit TxBegin (emit DbConnect w)) = (Return v, w1) \<and> w' = emit TxCommit w1"
  by (auto simp: engine_begin_def split: prod.splits result.splits if_splits)

section \<open>Outcomes of \<^verbatim>\<open>main\<close>\<close>

lemma etl_try_fail:
  assumes "fst (etl_try w) \<noteq> Return ()"
  shows "same_rows (db w) (db (snd (etl_try w)))"
proof -
  obtain r1 w1 where s1: "wait_for_vault [0..<5] w = (r1, w1)" by (cases "wait_for_vault [0..<5] w")
  have f1: "db w1 = db w" using wait_keeps [of w "[0..<5]"] s1 by simp
  show ?thesis
  proof (cases r1)
    case (Return u)
    obtain r2 w2 where s2: "etl_get_db_credentials_from_vault w1 = (r2, w2)"
      by (cases "etl_get_db_credentials_from_vault w1")
    have f2: "db w2 = db w1" using creds_keeps [of w1] s2 by simp
    show ?thesis
    proof (cases r2)
      case (Return c)
      obtain r3 w3 where s3: "create_engine c w2 = (r3, w3)" by (cases "create_engine c w2")
      have d3: "db w3 = db w" using engine_keeps [of w2 c] s3 f1 f2 by simp
      show ?thesis
      proof (cases r3)
        case (Return u3)
        obtain r4 w4 where s4: "engine_begin load_transaction w3 = (r4, w4)"
          by (cases "engine_begin load_transaction w3")
        show ?thesis
        proof (cases r4)
          case (Return b)
          with assms s1 s2 s3 s4 \<open>r1 = Return u\<close> \<open>r2 = Return c\<close> \<open>r3 = Return u3\<close>
          show ?thesis by (simp add: etl_try_def then_do_def split: if_splits)
        next
          case (Raise e)
          then have "\<forall>v. fst (engine_begin load_transaction w3) \<noteq> Return v" using s4 by simp
          from engine_begin_rollback [OF this] s1 s2 s3 s4 Raise d3
            \<open>r1 = Return u\<close> \<open>r2 = Return c\<close> \<open>r3 = Return u3\<close>
          show ?thesis by (simp add: etl_try_def then_do_def)
        next
          case (SysExit n)
          then have "\<forall>v. fst (engine_begin load_transaction w3) \<noteq> Return v" using s4 by simp
          from engine_begin_rollback [OF this] s1 s2 s3 s4 SysExit d3
            \<open>r1 = Return u\<close> \<open>r2 = Return c\<close> \<open>r3 = Return u3\<close>
          show ?thesis by (simp add: etl_try_def then_do_def)
        qed
      qed (use s1 s2 s3 d3 \<open>r1 = Return u\<close> \<open>r2 = Return c\<close> in \<open>simp_all add: etl_try_def then_do_def\<close>)
    qed (use s1 s2 f1 f2 \<open>r1 = Return u\<close> in \<open>simp_all add: etl_try_def then_do_def\<close>)
  qed (use s1 f1 in \<open>simp_all add: etl_try_def then_do_def\<close>)
qed

lemma etl_try_Return:
  assumes "etl_try w = (Return u, w')"
  shows "\<exists>w0 b wb. db w0 = db w \<and> labels_csv w0 = labels_csv w
           \<and> load_transaction w0 = (Return b, wb) \<and> db w' = db wb"
proof -
  from assms obtain u1 w1 c w2 u3 w3 b w4 where
    s1: "wait_for_vault [0..<5] w = (Return u1, w1)" and
    s2: "etl_get_db_credentials_from_vault w1 = (Return c, w2)" and
    s3: "create_engine c w2 = (Return u3, w3)" and
    s4: "engine_begin load_transaction w3 = (Return b, w4)" and
    s5: "(if b then (Return (), emit (Log INFO ''ETL pipeline completed successfully.'') w4)
          else (Return (), w4)) = (Return u, w')"
    unfolding etl_try_def then_do_Return by blast
  have f: "db w3 = db w \<and> labels_csv w3 = labels_csv w"
    using wait_keeps [of w "[0..<5]"] creds_keeps [of w1] engine_keeps [of w2 c] s1 s2 s3
    by (simp add: same_env_def)
  from engine_begin_Return [OF s4] obtain wb where
    b: "load_transaction (emit TxBegin (emit DbConnect w3)) = (Return b, wb)" and w4: "w4 = emit TxCommit wb"
    by blast
  have "db w' = db wb" using s5 w4 by (auto simp: emit_def split: if_splits)
  moreover have "db (emit TxBegin (emit DbConnect w3)) = db w
      \<and> labels_csv (emit TxBegin (emit DbConnect w3)) = labels_csv w"
    using f by (simp add: emit_def)
  ultimately show ?thesis using b by blast
qed

lemma etl_main_not_finished:
  assumes "fst (etl_main w) \<noteq> Finished"
  shows "same_rows (db w) (db (snd (etl_main w)))"
proof -
  let ?w0 = "emit (Log INFO ''Starting ETL pipeline...'') w"
  obtain r w' where t: "etl_try ?w0 = (r, w')" by (cases "etl_try ?w0")
  with assms have "r \<noteq> Return ()" by (auto simp: etl_main_def)
  with etl_try_fail [of ?w0] t have "same_rows (db w) (db w')" by (simp add: emit_def)
  with t show ?thesis
    by (cases r) (simp_all add: etl_main_def emit_def same_rows_def)
qed

lemma etl_main_finished:
  assumes "fst (etl_main w) = Finished"
  shows "\<exists>w0 b wb. db w0 = db w \<and> labels_csv w0 = labels_csv w
           \<and> load_transaction w0 = (Return b, wb) \<and> db (snd (etl_main w)) = db wb"
proof -
  let ?w0 = "emit (Log INFO ''Starting ETL pipeline...'') w"
  obtain r w' where t: "etl_try ?w0 = (r, w')" by (cases "etl_try ?w0")
  with assms have r: "r = Return ()" by (cases r) (auto simp: etl_main_def split: if_splits)
  from etl_try_Return [of ?w0 "()" w'] t r obtain w0 b wb where
    "db w0 = db ?w0" "labels_csv w0 = labels_csv ?w0" "load_transaction w0 = (Return b, wb)" "db w' = db wb"
    by blast
  moreover have "snd (etl_main w) = w'" using t r by (simp add: etl_main_def)
  ultimately show ?thesis by (auto simp: emit_def)
qed

lemma finished_load:
  assumes "fst (etl_main w) = Finished" and "labels_csv w = Some rows"
  shows "tomograms (db (snd (etl_main w))) = fst (merge_rows (unique_tomos rows) (tomograms (db w)) (tomo_seq (db w)))
       \<and> ref_ok (db (snd (etl_main w)))
       \<and> annotations (db (snd (etl_main w))) =
           number_rows 0 (make_annotations (select_tomo_map (db (snd (etl_main w)))) rows)
       \<and> schema_runs (db (snd (etl_main w))) = Suc (schema_runs (db w))"
proof -
  from etl_main_finished [OF assms(1)] obtain w0 b wb where
    d0: "db w0 = db w" and c0: "labels_csv w0 = labels_csv w" and
    l: "load_transaction w0 = (Return b, wb)" and d: "db (snd (etl_main w)) = db wb" by blast
  from load_transaction_Return [OF l] c0 assms(2) obtain w2 where
    d2: "db w2 = apply_schema (db w0)" and ll: "load_labels rows w2 = (Return b, wb)" by auto
  from load_labels_Return [OF ll] d2 d0 d show ?thesis
    by (simp add: apply_schema_def)
qed

lemma finished_without_csv:
  assumes "fst (etl_main w) = Finished" and "labels_csv w = None"
  shows "db (snd (etl_main w)) = apply_schema (db w)"
proof -
  from etl_main_finished [OF assms(1)] obtain w0 b wb where
    d0: "db w0 = db w" and c0: "labels_csv w0 = labels_csv w" and
    l: "load_transaction w0 = (Return b, wb)" and d: "db (snd (etl_main w)) = db wb" by blast
  from load_transaction_Return [OF l] c0 assms(2) d0 d show ?thesis by auto
qed

lemma ref_ok_same_rows: "same_rows d d' \<Longrightarrow> ref_ok d \<Longrightarrow> ref_ok d'"
  by (simp add: same_rows_def ref_ok_def)

section \<open>A load that meets no failure completes\<close>

lemma execute_vault: "vault (snd (execute s f w)) = vault w"
  by (simp add: execute_def Let_def emit_def split: sum.splits)

lemma to_sql_append_vault: "vault (snd (to_sql_append k cs w)) = vault w"
proof (induction cs arbitrary: k w)
  case Nil
  show ?case by simp
next
  case (Cons c cs)
  obtain r w1 where e: "execute (AppendAnnotations k) (insert_chunk c) w = (r, w1)"
    by (cases "execute (AppendAnnotations k) (insert_chunk c) w")
  with execute_vault [of "AppendAnnotations k" "insert_chunk c" w] have v: "vault w1 = vault w" by simp
  show ?case
    using e v Cons.IH [of "Suc k" w1] by (cases r) (simp_all add: then_do_def)
qed

lemma length_number_rows [simp]: "length (number_rows s rs) = length rs"
  by (induction rs arbitrary: s) auto

lemma load_labels_ok:
  assumes nf: "\<forall>s. \<not> faulty w s"
  shows "fst (load_labels rows w) = Return True \<and> vault (snd (load_labels rows w)) = vault w"
proof -
  define M where "M = merge_rows (unique_tomos rows) (tomograms (db w)) (tomo_seq (db w))"
  define d2 where "d2 = (db w)\<lparr>temp_tomograms := Some (unique_tomos rows), tomograms := fst M, tomo_seq := snd M\<rparr>"
  define A where "A = make_annotations (select_tomo_map d2) rows"
  define w7 where "w7 = w\<lparr>db := truncate_annotations d2,
      trace := trace w @ [Exec StageTomograms, Exec MergeTomograms, Log INFO ''Tomograms table synchronized.'',
        Exec ReadTomoMap, Log INFO ''Clearing old annotations...'', Exec TruncateAnnotations,
        Log INFO (''Loading '' @ str_nat (length A) @ '' new annotations...'')]\<rparr>"
  have step: "load_labels rows w = then_do (to_sql_append 0 (chunks A)) (\<lambda>_ w. (Return True, w)) w7"
    using nf
    by (simp add: load_labels_def then_do_def execute_def fetch_def emit_def stage_tomograms_def
          insert_tomograms_def truncate_annotations_def w7_def A_def d2_def M_def Let_def case_prod_beta)
  have "set (map label_tomo_name rows) \<subseteq> set (map tomo_name (tomograms d2))"
    using merge_rows_names [of "unique_tomos rows" "tomograms (db w)" "tomo_seq (db w)"]
      unique_tomos_names [of rows]
    by (auto simp: d2_def M_def)
  moreover have "tomograms (db w7) = tomograms d2"
    by (simp add: w7_def truncate_annotations_def)
  ultimately have "list_all (fk_ok (db w7)) A"
    unfolding A_def by (rule make_annotations_fk)
  then have fk: "list_all (fk_ok (db w7)) (concat (chunks A))" by (simp add: concat_chunks)
  have "\<forall>k. \<not> faulty w7 (AppendAnnotations k)" using nf by (simp add: w7_def)
  from to_sql_append_ok [OF this fk, of 0] obtain w8 where
    a: "to_sql_append 0 (chunks A) w7 = (Return (), w8)" by blast
  from to_sql_append_vault [of 0 "chunks A" w7] a have "vault w8 = vault w" by (simp add: w7_def)
  with step a show ?thesis by (simp add: then_do_def)
qed

lemma load_transaction_ok:
  assumes nf: "\<forall>s. \<not> faulty w s" and f: "schema_file w = Some ddl" and c: "labels_csv w = Some rows"
  shows "fst (load_transaction w) = Return True \<and> vault (snd (load_transaction w)) = vault w"
proof -
  define w3 where "w3 = w\<lparr>trace := trace w @ [Log INFO ''Applying database schema...'',
      ReadFile ''/app/sql/schema.sql'', Exec SchemaDDL], db := apply_schema (db w)\<rparr>"
  have "load_transaction w = load_labels rows w3"
    using nf f c
    by (simp add: load_transaction_def then_do_def read_text_def execute_def emit_def w3_def)
  moreover have "\<forall>s. \<not> faulty w3 s" using nf by (simp add: w3_def)
  ultimately show ?thesis using load_labels_ok [of w3 rows] by (simp add: w3_def)
qed

lemma etl_main_loads:
  assumes g: "wait_for_vault [0..<5] (emit (Log INFO ''Starting ETL pipeline...'') w) = (Return (), w1)"
    and v: "\<not> vault_read_fails w" "map_of (vault w) VAULT_SECRET_PATH = Some c"
    and k: "map_of c ''POSTGRES_USER'' = Some u" "map_of c ''POSTGRES_PASSWORD'' = Some p"
           "map_of c ''POSTGRES_DB'' = Some d"
    and r: "db_reachable w" "schema_file w = Some ddl" "\<forall>s. \<not> faulty w s"
    and m: "labels_csv w = Some rows"
  shows "fst (etl_main w) = Finished \<and> vault (snd (etl_main w)) = vault w"
proof -
  define w3 where "w3 = w1\<lparr>trace := trace w1 @
               [VaultRead VAULT_SECRET_PATH, GetEnv ''DB_HOST'',
                CreateEngine (database_url u p (case map_of (environ w) ''DB_HOST'' of None \<Rightarrow> ''db'' | Some h \<Rightarrow> h) d)]\<rparr>"
  define w4 where "w4 = emit TxBegin (emit DbConnect w3)"
  from gate_keeps [OF g]
  have e: "db_reachable w1 = db_reachable w" "schema_file w1 = schema_file w" "faulty w1 = faulty w"
    "labels_csv w1 = labels_csv w" "vault w1 = vault w"
    by (simp_all add: same_env_def)
  have "\<forall>s. \<not> faulty w4 s" "schema_file w4 = Some ddl" "labels_csv w4 = Some rows"
    using e r m by (simp_all add: w4_def w3_def emit_def)
  from load_transaction_ok [OF this]
  have l: "fst (load_transaction w4) = Return True" "vault (snd (load_transaction w4)) = vault w"
    using e by (simp_all add: w4_def w3_def emit_def)
  obtain wb where b: "load_transaction w4 = (Return True, wb)" and vb: "vault wb = vault w"
    using l by (cases "load_transaction w4") auto
  have "db_reachable w3" using e r by (simp add: w3_def)
  with b have "engine_begin load_transaction w3 = (Return True, emit TxCommit wb)"
    by (simp add: engine_begin_def w4_def)
  then show ?thesis
    unfolding etl_main_def etl_try_found [OF g v k] w3_def [symmetric]
    using vb by (simp add: then_do_def emit_def)
qed

section \<open>The aggregate queries\<close>

lemma str_nat_0: "str_nat 0 = ''0''"
  by code_simp

lemma joined_iff:
  "(t, a) \<in> set (joined d) \<longleftrightarrow> t \<in> set (tomograms d) \<and> a \<in> set (annotations d) \<and> ann_tomo_id a = tomo_id t"
  by (auto simp: joined_def)

lemma count_of_pos:
  "0 < count_of d n \<longleftrightarrow>
     (\<exists>t a. t \<in> set (tomograms d) \<and> a \<in> set (annotations d) \<and> ann_tomo_id a = tomo_id t \<and> tomo_name t = n)"
proof -
  have "0 < count_of d n \<longleftrightarrow> (\<exists>x \<in> set (joined d). case x of (t, a) \<Rightarrow> tomo_name t = n)"
    by (auto simp: count_of_def filter_empty_conv)
  also have "\<dots> \<longleftrightarrow> (\<exists>t a. (t, a) \<in> set (joined d) \<and> tomo_name t = n)"
    by force
  also have "\<dots> \<longleftrightarrow> (\<exists>t a. t \<in> set (tomograms d) \<and> a \<in> set (annotations d)
                         \<and> ann_tomo_id a = tomo_id t \<and> tomo_name t = n)"
    by (simp add: joined_iff)
  finally show ?thesis .
qed

lemma rich_query_set:
  "set (rich_query m d) = {(n, c). c = count_of d n \<and> m < int c \<and> 0 < c}"
proof -
  have "(n, c) \<in> set (rich_query m d) \<longleftrightarrow> c = count_of d n \<and> m < int c \<and> 0 < c" for n c
  proof -
    have "(n, c) \<in> set (rich_query m d) \<longleftrightarrow>
            n \<in> (\<lambda>(t, a). tomo_name t) ` set (joined d) \<and> c = count_of d n \<and> m < int c"
      by (auto simp: rich_query_def Let_def set_unique count_of_def)
    also have "n \<in> (\<lambda>(t, a). tomo_name t) ` set (joined d) \<longleftrightarrow> 0 < count_of d n"
      unfolding count_of_pos by (force simp: joined_iff)
    finally show ?thesis by auto
  qed
  then show ?thesis by auto
qed

lemma rich_query_sorted: "sorted_wrt (\<lambda>x y. snd y \<le> snd x) (rich_query m d)"
proof -
  have "sorted (map (\<lambda>(n, c). - int c) (rich_query m d))"
    by (simp add: rich_query_def Let_def)
  then show ?thesis
    by (simp add: sorted_wrt_map case_prod_beta)
qed

lemma rich_query_distinct: "distinct (map fst (rich_query m d))"
proof -
  define u where "u = unique (map (\<lambda>(t, a). tomo_name t) (joined d))"
  define g where "g = (\<lambda>n. (n, length (filter (\<lambda>(t, a). tomo_name t = n) (joined d))))"
  have "map fst (map g u) = u" by (simp add: g_def comp_def)
  then have "distinct (map fst (map g u))" by (simp add: u_def distinct_unique)
  then have "distinct (map fst (filter (\<lambda>(n, c). int c > m) (map g u)))"
    by (rule distinct_map_filter)
  then have "distinct (map fst (sort_key (\<lambda>(n, c). - int c) (filter (\<lambda>(n, c). int c > m) (map g u))))"
    by (simp add: distinct_map)
  then show ?thesis by (simp add: rich_query_def Let_def u_def g_def)
qed

section \<open>Evaluation on concrete states\<close>

text \<open>Unfolding everything evaluates a run on a concrete state.\<close>

lemmas run_defs = etl_main_def etl_try_def then_do_def range_5 read_health_status_def emit_def
        etl_get_db_credentials_from_vault_def read_secret_version_def VAULT_SECRET_PATH_def
        create_engine_def getitem_def getenv_def database_url_def engine_begin_def
        load_transaction_def read_text_def execute_def fetch_def apply_schema_def
        load_labels_def unique_tomos_def stage_tomograms_def insert_tomograms_def
        select_tomo_map_def make_annotations_def py_dict_def truncate_annotations_def
        insert_chunk_def fk_ok_def rollback_def chunks.simps CHUNKSIZE_def str_nat.simps digit_def

lemmas state_defs = steady_world_def fresh_world_def stored_secret_def empty_db_def sample_labels_def
        retry_world_def interrupted_world_def loaded_db_def next_labels_def

section \<open>The claims\<close>

text \<open>
  Claim C7, as amended. The readiness gate polls the health check once per attempt and pauses
  2 time units after every attempt that answered unhealthy. The poll is not guarded: an
  answer is either healthy, unhealthy, or the poll raises because the store cannot be
  reached. With \<open>k < 5\<close> unhealthy answers first, the three cases are:
  a healthy answer at attempt \<open>k + 1\<close> makes the gate return at once (\<open>k + 1\<close> polls,
  \<open>k\<close> pauses, nothing after the healthy poll);
  5 unhealthy answers in a row make the gate raise "Vault is not available.";
  a poll that raises at attempt \<open>k + 1\<close> ends the gate there, with that exception, without a
  pause and without any further attempt, whatever the store would have answered later.
  Both failures are fatal: \<^verbatim>\<open>main\<close> logs the error and the process exits with status 1,
  the run holds no database event and leaves the database as it was. The counterexample
  shows a store that fails every poll and a run that ends after one attempt with an
  exception other than "Vault is not available.", and a store whose healthy answer at the
  third poll is never asked for.
\<close>

theorem readiness_gate:
  "(k < 5 \<longrightarrow> (\<forall>j<k. health w (polls w + j) = Unhealthy) \<longrightarrow> health w (polls w + k) = Healthy \<longrightarrow>
      wait_for_vault [0..<5] w =
        (Return (), w\<lparr>polls := polls w + k + 1,
                      trace := trace w @ concat (map waiting [0..<k]) @ [HealthPoll]\<rparr>))
   \<and> ((\<forall>k<5. health w (polls w + k) = Unhealthy) \<longrightarrow>
        wait_for_vault [0..<5] w =
          (Raise VaultNotAvailable,
           w\<lparr>polls := polls w + 5, trace := trace w @ concat (map waiting [0..<5])\<rparr>)
      \<and> etl_main w =
          (Exited 1,
           w\<lparr>polls := polls w + 5,
             trace := trace w @ Log INFO ''Starting ETL pipeline...'' # concat (map waiting [0..<5])
                        @ [LogExn ERROR ''An error occurred during the ETL process: '' VaultNotAvailable '''']\<rparr>)
      \<and> \<not> list_ex is_db_event (drop (length (trace w)) (trace (snd (etl_main w)))))
   \<and> (k < 5 \<longrightarrow> (\<forall>j<k. health w (polls w + j) = Unhealthy) \<longrightarrow> health w (polls w + k) = Unreachable \<longrightarrow>
        wait_for_vault [0..<5] w =
          (Raise VaultFailure,
           w\<lparr>polls := polls w + k + 1, trace := trace w @ concat (map waiting [0..<k]) @ [HealthPoll]\<rparr>)
      \<and> etl_main w =
          (Exited 1,
           w\<lparr>polls := polls w + k + 1,
             trace := trace w @ Log INFO ''Starting ETL pipeline...'' # concat (map waiting [0..<k])
                        @ [HealthPoll,
                           LogExn ERROR ''An error occurred during the ETL process: '' VaultFailure '''']\<rparr>)
      \<and> \<not> list_ex is_db_event (drop (length (trace w)) (trace (snd (etl_main w)))))"
proof (intro conjI impI)
  assume k: "k < 5" and u: "\<forall>j<k. health w (polls w + j) = Unhealthy" and h: "health w (polls w + k) = Healthy"
  have "take k [0..<5] = [0..<k]" using k by (simp add: take_upt)
  with wait_first_healthy [of k "[0..<5]" w] k u h
  show "wait_for_vault [0..<5] w =
        (Return (), w\<lparr>polls := polls w + k + 1,
                      trace := trace w @ concat (map waiting [0..<k]) @ [HealthPoll]\<rparr>)"
    by simp
next
  assume u: "\<forall>k<5. health w (polls w + k) = Unhealthy"
  then show g: "wait_for_vault [0..<5] w =
          (Raise VaultNotAvailable,
           w\<lparr>polls := polls w + 5, trace := trace w @ concat (map waiting [0..<5])\<rparr>)"
    using wait_all_unhealthy [of "[0..<5]" w] by simp
  let ?w0 = "emit (Log INFO ''Starting ETL pipeline...'') w"
  have "\<forall>k < length [0..<5]. health ?w0 (polls ?w0 + k) = Unhealthy"
    using u by (simp add: emit_def)
  from wait_all_unhealthy [OF this]
  show m: "etl_main w =
          (Exited 1,
           w\<lparr>polls := polls w + 5,
             trace := trace w @ Log INFO ''Starting ETL pipeline...'' # concat (map waiting [0..<5])
                        @ [LogExn ERROR ''An error occurred during the ETL process: '' VaultNotAvailable '''']\<rparr>)"
    by (simp add: etl_main_def etl_try_def then_do_def emit_def)
  show "\<not> list_ex is_db_event (drop (length (trace w)) (trace (snd (etl_main w))))"
    using is_db_event_waiting [of "[0..<5]"] by (simp add: m del: upt_Suc)
next
  assume k: "k < 5" and u: "\<forall>j<k. health w (polls w + j) = Unhealthy"
    and h: "health w (polls w + k) = Unreachable"
  have t: "take k [0..<5] = [0..<k]" using k by (simp add: take_upt)
  with wait_first_unreachable [of k "[0..<5]" w] k u h
  show "wait_for_vault [0..<5] w =
          (Raise VaultFailure,
           w\<lparr>polls := polls w + k + 1, trace := trace w @ concat (map waiting [0..<k]) @ [HealthPoll]\<rparr>)"
    by simp
  let ?w0 = "emit (Log INFO ''Starting ETL pipeline...'') w"
  have "k < length [0..<5]" "\<forall>j<k. health ?w0 (polls ?w0 + j) = Unhealthy"
    "health ?w0 (polls ?w0 + k) = Unreachable"
    using k u h by (simp_all add: emit_def)
  from wait_first_unreachable [OF this] t
  show m: "etl_main w =
          (Exited 1,
           w\<lparr>polls := polls w + k + 1,
             trace := trace w @ Log INFO ''Starting ETL pipeline...'' # concat (map waiting [0..<k])
                        @ [HealthPoll,
                           LogExn ERROR ''An error occurred during the ETL process: '' VaultFailure '''']\<rparr>)"
    by (simp add: etl_main_def etl_try_def then_do_def emit_def)
  show "\<not> list_ex is_db_event (drop (length (trace w)) (trace (snd (etl_main w))))"
    using is_db_event_waiting [of "[0..<k]"] by (simp add: m)
qed

theorem readiness_gate_witness:
  "(health slow_world (polls slow_world) = Unhealthy
      \<and> health slow_world (polls slow_world + 1) = Unhealthy
      \<and> health slow_world (polls slow_world + 2) = Healthy
      \<and> fst (wait_for_vault [0..<5] slow_world) = Return ()
      \<and> polls (snd (wait_for_vault [0..<5] slow_world)) = 3)
   \<and> (health down_world (polls down_world + 4) = Unhealthy
      \<and> fst (etl_main down_world) = Exited 1
      \<and> polls (snd (etl_main down_world)) = 5
      \<and> db (snd (etl_main down_world)) = empty_db)
   \<and> (health flaky_world (polls flaky_world) = Unhealthy
      \<and> health flaky_world (polls flaky_world + 1) = Unreachable
      \<and> fst (wait_for_vault [0..<5] flaky_world) = Raise VaultFailure
      \<and> fst (etl_main flaky_world) = Exited 1
      \<and> polls (snd (etl_main flaky_world)) = 2
      \<and> db (snd (etl_main flaky_world)) = empty_db)"
proof -
  have a: "(2::nat) < 5 \<and> (\<forall>j<2. health slow_world (polls slow_world + j) = Unhealthy)
      \<and> health slow_world (polls slow_world + 2) = Healthy"
    by (simp add: slow_world_def fresh_world_def)
  have b: "\<forall>k<5. health down_world (polls down_world + k) = Unhealthy"
    by (simp add: down_world_def fresh_world_def)
  have f: "(1::nat) < 5 \<and> (\<forall>j<1. health flaky_world (polls flaky_world + j) = Unhealthy)
      \<and> health flaky_world (polls flaky_world + 1) = Unreachable"
    by (simp add: flaky_world_def fresh_world_def)
  from a readiness_gate [of 2 slow_world]
  have "wait_for_vault [0..<5] slow_world =
        (Return (), slow_world\<lparr>polls := polls slow_world + 2 + 1,
                      trace := trace slow_world @ concat (map waiting [0..<2]) @ [HealthPoll]\<rparr>)"
    by blast
  then have c: "fst (wait_for_vault [0..<5] slow_world) = Return ()
      \<and> polls (snd (wait_for_vault [0..<5] slow_world)) = 3"
    by (simp add: slow_world_def fresh_world_def)
  from b readiness_gate [of 0 down_world]
  have "etl_main down_world =
          (Exited 1,
           down_world\<lparr>polls := polls down_world + 5,
             trace := trace down_world @ Log INFO ''Starting ETL pipeline...'' # concat (map waiting [0..<5])
                        @ [LogExn ERROR ''An error occurred during the ETL process: '' VaultNotAvailable '''']\<rparr>)"
    by blast
  then have d: "fst (etl_main down_world) = Exited 1
      \<and> polls (snd (etl_main down_world)) = 5
      \<and> db (snd (etl_main down_world)) = empty_db"
    by (simp add: down_world_def fresh_world_def)
  from f readiness_gate [of 1 flaky_world]
  have "wait_for_vault [0..<5] flaky_world =
          (Raise VaultFailure,
           flaky_world\<lparr>polls := polls flaky_world + 1 + 1,
              trace := trace flaky_world @ concat (map waiting [0..<1]) @ [HealthPoll]\<rparr>)
      \<and> etl_main flaky_world =
          (Exited 1,
           flaky_world\<lparr>polls := polls flaky_world + 1 + 1,
             trace := trace flaky_world @ Log INFO ''Starting ETL pipeline...'' # concat (map waiting [0..<1])
                        @ [HealthPoll,
                           LogExn ERROR ''An error occurred during the ETL process: '' VaultFailure '''']\<rparr>)"
    by blast
  then have g: "fst (wait_for_vault [0..<5] flaky_world) = Raise VaultFailure
      \<and> fst (etl_main flaky_world) = Exited 1
      \<and> polls (snd (etl_main flaky_world)) = 2
      \<and> db (snd (etl_main flaky_world)) = empty_db"
    by (simp add: flaky_world_def fresh_world_def)
  have e: "health slow_world (polls slow_world) = Unhealthy
      \<and> health slow_world (polls slow_world + 1) = Unhealthy
      \<and> health down_world (polls down_world + 4) = Unhealthy
      \<and> health flaky_world (polls flaky_world) = Unhealthy"
    by (simp add: slow_world_def down_world_def flaky_world_def fresh_world_def)
  from a c d e f g show ?thesis by blast
qed

theorem readiness_gate_raising_poll_counterexample:
  "health unreachable_world 0 = Unreachable \<and> health unreachable_world 4 = Unreachable
   \<and> fst (wait_for_vault [0..<5] unreachable_world) = Raise VaultFailure
   \<and> fst (wait_for_vault [0..<5] unreachable_world) \<noteq> Raise VaultNotAvailable
   \<and> polls (snd (wait_for_vault [0..<5] unreachable_world)) = 1
   \<and> trace (snd (wait_for_vault [0..<5] unreachable_world)) = [HealthPoll]
   \<and> health flaky_world 2 = Healthy
   \<and> fst (wait_for_vault [0..<5] flaky_world) \<noteq> Return ()
   \<and> polls (snd (wait_for_vault [0..<5] flaky_world)) = 2"
  by (simp add: unreachable_world_def flaky_world_def fresh_world_def range_5 read_health_status_def
        emit_def)

text \<open>
  Claim C5. When the Credential Document exists at the fixed path,
  \<^verbatim>\<open>get_db_credentials_from_vault\<close> of the ETL pipeline returns it. The only thing the call
  does is the read: the state afterwards is the state before plus one \<open>VaultRead\<close> event, so
  no environment variable is read and no secret is written, whatever the environment holds.
\<close>

theorem found_path_short_circuits:
  "\<not> vault_read_fails w \<Longrightarrow> map_of (vault w) VAULT_SECRET_PATH = Some d \<Longrightarrow>
   etl_get_db_credentials_from_vault w = (Return d, emit (VaultRead VAULT_SECRET_PATH) w)"
  by (simp add: etl_get_db_credentials_from_vault_def read_secret_version_def)

theorem found_path_short_circuits_witness:
  "\<not> vault_read_fails steady_world \<and> map_of (vault steady_world) VAULT_SECRET_PATH = Some stored_secret
   \<and> map_of (environ steady_world) ''POSTGRES_USER'' = None
   \<and> etl_get_db_credentials_from_vault steady_world = (Return stored_secret, emit (VaultRead ''cryoet'') steady_world)"
  using found_path_short_circuits [of steady_world stored_secret]
  by (simp add: steady_world_def fresh_world_def VAULT_SECRET_PATH_def)

text \<open>
  Claim C6. On a first run (the secret is not found), if any of \<^verbatim>\<open>POSTGRES_USER\<close>,
  \<^verbatim>\<open>POSTGRES_PASSWORD\<close>, \<^verbatim>\<open>POSTGRES_DB\<close> is absent from the environment, the bootstrapper
  reads the three variables, logs the FATAL message that names all three prerequisites and
  raises \<^verbatim>\<open>SystemExit(1)\<close>; the trace holds no \<open>VaultWrite\<close> and the store is unchanged. In
  \<^verbatim>\<open>main\<close>, once the readiness gate has let the run through (state \<open>w1\<close>), the process
  exits with status 1 at that point.
\<close>

theorem first_run_missing_env_is_fatal:
  assumes "\<not> vault_read_fails w" and "map_of (vault w) VAULT_SECRET_PATH = None"
    and "map_of (environ w) ''POSTGRES_USER'' = None \<or> map_of (environ w) ''POSTGRES_PASSWORD'' = None
           \<or> map_of (environ w) ''POSTGRES_DB'' = None"
  shows "etl_get_db_credentials_from_vault w =
           (SysExit 1,
            w\<lparr>trace := trace w @
               [VaultRead VAULT_SECRET_PATH,
                Log WARNING ''Secrets not found in Vault. This appears to be the first run.'',
                Log INFO ''Attempting to write secrets to Vault...'',
                GetEnv ''POSTGRES_USER'', GetEnv ''POSTGRES_PASSWORD'', GetEnv ''POSTGRES_DB'',
                Log ERROR ''FATAL: On first run, POSTGRES_USER, POSTGRES_PASSWORD, and POSTGRES_DB must be set for Vault initialization.'']\<rparr>)
         \<and> (wait_for_vault [0..<5] (emit (Log INFO ''Starting ETL pipeline...'') w) = (Return (), w1) \<longrightarrow>
              etl_main w =
                (Exited 1,
                 w1\<lparr>trace := trace w1 @
                    [VaultRead VAULT_SECRET_PATH,
                     Log WARNING ''Secrets not found in Vault. This appears to be the first run.'',
                     Log INFO ''Attempting to write secrets to Vault...'',
                     GetEnv ''POSTGRES_USER'', GetEnv ''POSTGRES_PASSWORD'', GetEnv ''POSTGRES_DB'',
                     Log ERROR ''FATAL: On first run, POSTGRES_USER, POSTGRES_PASSWORD, and POSTGRES_DB must be set for Vault initialization.'']\<rparr>))"
proof -
  have f: "etl_get_db_credentials_from_vault v =
           (SysExit 1,
            v\<lparr>trace := trace v @
               [VaultRead VAULT_SECRET_PATH,
                Log WARNING ''Secrets not found in Vault. This appears to be the first run.'',
                Log INFO ''Attempting to write secrets to Vault...'',
                GetEnv ''POSTGRES_USER'', GetEnv ''POSTGRES_PASSWORD'', GetEnv ''POSTGRES_DB'',
                Log ERROR ''FATAL: On first run, POSTGRES_USER, POSTGRES_PASSWORD, and POSTGRES_DB must be set for Vault initialization.'']\<rparr>)"
    if "vault_read_fails v = vault_read_fails w" "vault v = vault w" "environ v = environ w" for v :: "'a world"
    using that assms
    by (auto simp add: etl_get_db_credentials_from_vault_def read_secret_version_def emit_def
          getenv_def truthy_def Let_def)
  show ?thesis
  proof (intro conjI impI)
    show "etl_get_db_credentials_from_vault w =
           (SysExit 1,
            w\<lparr>trace := trace w @
               [VaultRead VAULT_SECRET_PATH,
                Log WARNING ''Secrets not found in Vault. This appears to be the first run.'',
                Log INFO ''Attempting to write secrets to Vault...'',
                GetEnv ''POSTGRES_USER'', GetEnv ''POSTGRES_PASSWORD'', GetEnv ''POSTGRES_DB'',
                Log ERROR ''FATAL: On first run, POSTGRES_USER, POSTGRES_PASSWORD, and POSTGRES_DB must be set for Vault initialization.'']\<rparr>)"
      by (rule f) simp_all
  next
    assume g: "wait_for_vault [0..<5] (emit (Log INFO ''Starting ETL pipeline...'') w) = (Return (), w1)"
    from gate_keeps [OF g] have "vault_read_fails w1 = vault_read_fails w" "vault w1 = vault w" "environ w1 = environ w"
      by (simp_all add: same_env_def)
    from f [OF this] g
    show "etl_main w =
                (Exited 1,
                 w1\<lparr>trace := trace w1 @
                    [VaultRead VAULT_SECRET_PATH,
                     Log WARNING ''Secrets not found in Vault. This appears to be the first run.'',
                     Log INFO ''Attempting to write secrets to Vault...'',
                     GetEnv ''POSTGRES_USER'', GetEnv ''POSTGRES_PASSWORD'', GetEnv ''POSTGRES_DB'',
                     Log ERROR ''FATAL: On first run, POSTGRES_USER, POSTGRES_PASSWORD, and POSTGRES_DB must be set for Vault initialization.'']\<rparr>)"
      by (simp add: etl_main_def etl_try_def then_do_def)
  qed
qed

theorem first_run_missing_env_is_fatal_witness:
  "\<not> vault_read_fails no_env_world \<and> map_of (vault no_env_world) VAULT_SECRET_PATH = None
   \<and> map_of (environ no_env_world) ''POSTGRES_PASSWORD'' = None
   \<and> fst (etl_get_db_credentials_from_vault no_env_world) = SysExit 1
   \<and> fst (etl_main no_env_world) = Exited 1
   \<and> vault (snd (etl_main no_env_world)) = []"
proof -
  let ?w1 = "(emit (Log INFO ''Starting ETL pipeline...'') no_env_world)\<lparr>polls := 1,
               trace := [Log INFO ''Starting ETL pipeline...'', HealthPoll]\<rparr>"
  have h: "\<not> vault_read_fails no_env_world" "map_of (vault no_env_world) VAULT_SECRET_PATH = None"
    "map_of (environ no_env_world) ''POSTGRES_USER'' = None \<or> map_of (environ no_env_world) ''POSTGRES_PASSWORD'' = None
           \<or> map_of (environ no_env_world) ''POSTGRES_DB'' = None"
    by (simp_all add: no_env_world_def fresh_world_def)
  have g: "wait_for_vault [0..<5] (emit (Log INFO ''Starting ETL pipeline...'') no_env_world) = (Return (), ?w1)"
    by (simp add: range_5 read_health_status_def emit_def no_env_world_def fresh_world_def)
  from first_run_missing_env_is_fatal [OF h, of ?w1] g
  show ?thesis
    by (simp add: no_env_world_def fresh_world_def emit_def)
qed

text \<open>
  Claim C10. In the query tool a Credential Document that is not found is fatal:
  \<^verbatim>\<open>get_db_credentials_from_vault\<close> logs the FATAL message and raises \<^verbatim>\<open>SystemExit(1)\<close>
  right after the read. The trace holds no \<open>GetEnv\<close> and no \<open>VaultWrite\<close>, the store is
  unchanged, and the whole tool, once its readiness gate has passed (state \<open>w1\<close>), exits
  with status 1 for every command.
\<close>

theorem query_not_found_is_fatal:
  assumes "\<not> vault_read_fails w" and "map_of (vault w) VAULT_SECRET_PATH = None"
  shows "query_get_db_credentials_from_vault w =
           (SysExit 1,
            w\<lparr>trace := trace w @
               [VaultRead VAULT_SECRET_PATH,
                Log ERROR ''FATAL: Secrets not found in Vault. Please run the ETL script first to initialize them.'']\<rparr>)
         \<and> (wait_for_vault [0..<5] w = (Return (), w1) \<longrightarrow>
              query_tool cmd w =
                (Exited 1,
                 w1\<lparr>trace := trace w1 @
                    [VaultRead VAULT_SECRET_PATH,
                     Log ERROR ''FATAL: Secrets not found in Vault. Please run the ETL script first to initialize them.'']\<rparr>))"
proof -
  have f: "query_get_db_credentials_from_vault v =
           (SysExit 1,
            v\<lparr>trace := trace v @
               [VaultRead VAULT_SECRET_PATH,
                Log ERROR ''FATAL: Secrets not found in Vault. Please run the ETL script first to initialize them.'']\<rparr>)"
    if "vault_read_fails v = vault_read_fails w" "vault v = vault w" for v :: "'a world"
    using that assms
    by (simp add: query_get_db_credentials_from_vault_def read_secret_version_def emit_def)
  show ?thesis
  proof (intro conjI impI)
    show "query_get_db_credentials_from_vault w =
           (SysExit 1,
            w\<lparr>trace := trace w @
               [VaultRead VAULT_SECRET_PATH,
                Log ERROR ''FATAL: Secrets not found in Vault. Please run the ETL script first to initialize them.'']\<rparr>)"
      by (rule f) simp_all
  next
    assume g: "wait_for_vault [0..<5] w = (Return (), w1)"
    from wait_keeps [of w "[0..<5]"] g
    have "vault_read_fails w1 = vault_read_fails w" "vault w1 = vault w"
      by (simp_all add: same_env_def)
    from f [OF this] g
    show "query_tool cmd w =
                (Exited 1,
                 w1\<lparr>trace := trace w1 @
                    [VaultRead VAULT_SECRET_PATH,
                     Log ERROR ''FATAL: Secrets not found in Vault. Please run the ETL script first to initialize them.'']\<rparr>)"
      by (simp add: query_tool_def query_module_init_def then_do_def)
  qed
qed

theorem query_not_found_is_fatal_witness:
  "\<not> vault_read_fails fresh_world \<and> map_of (vault fresh_world) VAULT_SECRET_PATH = None
   \<and> fst (query_get_db_credentials_from_vault fresh_world) = SysExit 1
   \<and> fst (query_tool (CountAnnotations ''A'') fresh_world) = Exited 1
   \<and> vault (snd (query_tool (CountAnnotations ''A'') fresh_world)) = []
   \<and> trace (snd (query_tool (CountAnnotations ''A'') fresh_world)) =
       [HealthPoll, VaultRead ''cryoet'',
        Log ERROR ''FATAL: Secrets not found in Vault. Please run the ETL script first to initialize them.'']"
proof -
  let ?w1 = "fresh_world\<lparr>polls := 1, trace := [HealthPoll]\<rparr>"
  have h: "\<not> vault_read_fails fresh_world" "map_of (vault fresh_world) VAULT_SECRET_PATH = None"
    by (simp_all add: fresh_world_def)
  have g: "wait_for_vault [0..<5] fresh_world = (Return (), ?w1)"
    by (simp add: range_5 read_health_status_def emit_def fresh_world_def)
  from query_not_found_is_fatal [OF h, of ?w1 "CountAnnotations ''A''"] g
  show ?thesis
    by (simp add: fresh_world_def VAULT_SECRET_PATH_def)
qed

text \<open>
  Claim C1, as amended. The check for the CSV file sits inside the
  \<^verbatim>\<open>with engine.begin()\<close> block, after the schema statement. So when the file is
  missing and the run gets as far as the check (the readiness gate has passed in state
  \<open>w1\<close>, the secret holds the three keys, the database is reachable, the schema file is
  there and its statement succeeds), the run has opened a transaction and executed the schema
  DDL; it then logs the missing file and returns, which commits. The schema statement is the
  only one executed: no tomogram or annotation row is written or deleted, and the process
  ends with exit status 0. The counterexample shows, at a concrete state, the transaction
  and the committed schema statement that the claim as written rules out.
\<close>

theorem missing_csv_commits_schema_only:
  assumes g: "wait_for_vault [0..<5] (emit (Log INFO ''Starting ETL pipeline...'') w) = (Return (), w1)"
    and v: "\<not> vault_read_fails w" "map_of (vault w) VAULT_SECRET_PATH = Some c"
    and k: "map_of c ''POSTGRES_USER'' = Some u" "map_of c ''POSTGRES_PASSWORD'' = Some p"
           "map_of c ''POSTGRES_DB'' = Some d"
    and r: "db_reachable w" "schema_file w = Some ddl" "\<not> faulty w SchemaDDL"
    and m: "labels_csv w = None"
  shows "etl_main w =
           (Finished,
            w1\<lparr>db := apply_schema (db w),
               trace := trace w1 @
                 [VaultRead VAULT_SECRET_PATH, GetEnv ''DB_HOST'',
                  CreateEngine (database_url u p (case map_of (environ w) ''DB_HOST'' of None \<Rightarrow> ''db'' | Some h \<Rightarrow> h) d),
                  DbConnect, TxBegin, Log INFO ''Applying database schema...'',
                  ReadFile ''/app/sql/schema.sql'', Exec SchemaDDL,
                  Log ERROR ''Source data file not found: /app/data/labels.csv. Aborting.'',
                  TxCommit]\<rparr>)
         \<and> tomograms (db (snd (etl_main w))) = tomograms (db w)
         \<and> annotations (db (snd (etl_main w))) = annotations (db w)
         \<and> schema_runs (db (snd (etl_main w))) = Suc (schema_runs (db w))
         \<and> exit_status (fst (etl_main w)) = 0"
proof -
  from gate_keeps [OF g]
  have e: "db_reachable w1 = db_reachable w" "schema_file w1 = schema_file w" "faulty w1 = faulty w"
    "labels_csv w1 = labels_csv w" "db w1 = db w"
    by (simp_all add: same_env_def)
  have "etl_main w =
           (Finished,
            w1\<lparr>db := apply_schema (db w),
               trace := trace w1 @
                 [VaultRead VAULT_SECRET_PATH, GetEnv ''DB_HOST'',
                  CreateEngine (database_url u p (case map_of (environ w) ''DB_HOST'' of None \<Rightarrow> ''db'' | Some h \<Rightarrow> h) d),
                  DbConnect, TxBegin, Log INFO ''Applying database schema...'',
                  ReadFile ''/app/sql/schema.sql'', Exec SchemaDDL,
                  Log ERROR ''Source data file not found: /app/data/labels.csv. Aborting.'',
                  TxCommit]\<rparr>)"
    unfolding etl_main_def etl_try_found [OF g v k]
    using e r m
    by (simp add: then_do_def engine_begin_def load_transaction_def read_text_def execute_def emit_def)
  then show ?thesis
    by (simp add: apply_schema_def exit_status_def)
qed

theorem missing_csv_commits_schema_only_witness:
  "\<not> vault_read_fails no_csv_world \<and> db_reachable no_csv_world \<and> labels_csv no_csv_world = None
   \<and> fst (etl_main no_csv_world) = Finished
   \<and> db (snd (etl_main no_csv_world)) = empty_db\<lparr>schema_runs := 1\<rparr>
   \<and> trace (snd (etl_main no_csv_world)) =
       [Log INFO ''Starting ETL pipeline...'', HealthPoll, VaultRead ''cryoet'', GetEnv ''DB_HOST'',
        CreateEngine ''postgresql://cryo:pw@db:5432/tomo'', DbConnect, TxBegin,
        Log INFO ''Applying database schema...'', ReadFile ''/app/sql/schema.sql'', Exec SchemaDDL,
        Log ERROR ''Source data file not found: /app/data/labels.csv. Aborting.'', TxCommit]"
proof -
  let ?w1 = "(emit (Log INFO ''Starting ETL pipeline...'') no_csv_world)\<lparr>polls := 1,
               trace := [Log INFO ''Starting ETL pipeline...'', HealthPoll]\<rparr>"
  have g: "wait_for_vault [0..<5] (emit (Log INFO ''Starting ETL pipeline...'') no_csv_world) = (Return (), ?w1)"
    by (simp add: range_5 read_health_status_def emit_def no_csv_world_def steady_world_def fresh_world_def)
  have v: "\<not> vault_read_fails no_csv_world" "map_of (vault no_csv_world) VAULT_SECRET_PATH = Some stored_secret"
    by (simp_all add: no_csv_world_def steady_world_def fresh_world_def VAULT_SECRET_PATH_def)
  have k: "map_of stored_secret ''POSTGRES_USER'' = Some ''cryo''"
    "map_of stored_secret ''POSTGRES_PASSWORD'' = Some ''pw''"
    "map_of stored_secret ''POSTGRES_DB'' = Some ''tomo''"
    by (simp_all add: stored_secret_def)
  have r: "db_reachable no_csv_world"
    "schema_file no_csv_world = Some ''CREATE TABLE IF NOT EXISTS tomograms ();''"
    "\<not> faulty no_csv_world SchemaDDL"
    by (simp_all add: no_csv_world_def steady_world_def fresh_world_def)
  have m: "labels_csv no_csv_world = None"
    by (simp add: no_csv_world_def steady_world_def)
  from missing_csv_commits_schema_only [OF g v k r m] v r m
  show ?thesis
    by (simp add: no_csv_world_def steady_world_def fresh_world_def emit_def apply_schema_def
          empty_db_def database_url_def VAULT_SECRET_PATH_def)
qed

theorem missing_csv_touches_database_counterexample:
  "labels_csv no_csv_world = None
   \<and> list_ex (\<lambda>e. e = TxBegin) (trace (snd (etl_main no_csv_world)))
   \<and> list_ex (\<lambda>e. e = Exec SchemaDDL) (trace (snd (etl_main no_csv_world)))
   \<and> list_ex (\<lambda>e. e = TxCommit) (trace (snd (etl_main no_csv_world)))
   \<and> schema_runs (db no_csv_world) = 0
   \<and> schema_runs (db (snd (etl_main no_csv_world))) = 1"
  by (simp add: no_csv_world_def steady_world_def fresh_world_def stored_secret_def empty_db_def
        etl_main_def etl_try_def then_do_def range_5 read_health_status_def emit_def
        etl_get_db_credentials_from_vault_def read_secret_version_def VAULT_SECRET_PATH_def
        create_engine_def getitem_def getenv_def database_url_def engine_begin_def
        load_transaction_def read_text_def execute_def apply_schema_def)

text \<open>
  Claim C3. Referential integrity (\<open>ref_ok\<close>: every annotation row's \<open>tomo_id\<close> is the id of
  a tomogram row) is kept by every run of the pipeline, whatever its outcome, and it is
  established by every run that completes a load, whatever the store held before. A run that
  does not finish normally (an exception in the schema, dimension or fact step, or any
  earlier fatal condition) leaves the rows of all tables as they were: the transaction is
  rolled back as a whole, so no partial fact load is committed, and a retry starts from the
  rows of the last committed run.
\<close>

theorem referential_integrity_and_rollback:
  "(ref_ok (db w) \<longrightarrow> ref_ok (db (snd (etl_main w))))
   \<and> (fst (etl_main w) = Finished \<longrightarrow> labels_csv w \<noteq> None \<longrightarrow> ref_ok (db (snd (etl_main w))))
   \<and> (fst (etl_main w) \<noteq> Finished \<longrightarrow> same_rows (db w) (db (snd (etl_main w))))"
proof (intro conjI impI)
  assume "fst (etl_main w) \<noteq> Finished"
  then show "same_rows (db w) (db (snd (etl_main w)))" by (rule etl_main_not_finished)
next
  assume "fst (etl_main w) = Finished" and "labels_csv w \<noteq> None"
  then show "ref_ok (db (snd (etl_main w)))" using finished_load [of w] by auto
next
  assume r: "ref_ok (db w)"
  show "ref_ok (db (snd (etl_main w)))"
  proof (cases "fst (etl_main w) = Finished")
    case False
    from etl_main_not_finished [OF this] r show ?thesis by (rule ref_ok_same_rows)
  next
    case True
    show ?thesis
    proof (cases "labels_csv w")
      case None
      from finished_without_csv [OF True None] r show ?thesis
        by (simp add: apply_schema_def ref_ok_def)
    next
      case (Some rows)
      from finished_load [OF True Some] show ?thesis by simp
    qed
  qed
qed

theorem referential_integrity_and_rollback_witness:
  "ref_ok (db interrupted_world)
   \<and> fst (etl_main interrupted_world) = Exited 1
   \<and> same_rows (db interrupted_world) (db (snd (etl_main interrupted_world)))
   \<and> ref_ok (db (snd (etl_main interrupted_world)))
   \<and> labels_csv ((snd (etl_main interrupted_world))\<lparr>faulty := (\<lambda>s. False)\<rparr>) = Some next_labels
   \<and> fst (etl_main ((snd (etl_main interrupted_world))\<lparr>faulty := (\<lambda>s. False)\<rparr>)) = Finished
   \<and> ref_ok (db (snd (etl_main ((snd (etl_main interrupted_world))\<lparr>faulty := (\<lambda>s. False)\<rparr>))))"
proof -
  let ?w2 = "(snd (etl_main interrupted_world))\<lparr>faulty := (\<lambda>s. False)\<rparr>"
  have a: "ref_ok (db interrupted_world)"
    by (simp add: state_defs ref_ok_def)
  have b: "fst (etl_main interrupted_world) = Exited 1"
    by (simp add: state_defs run_defs)
  then have b': "fst (etl_main interrupted_world) \<noteq> Finished" by simp
  have c: "labels_csv ?w2 = Some next_labels"
    by (simp add: state_defs run_defs)
  then have c': "labels_csv ?w2 \<noteq> None" by simp
  have d: "fst (etl_main ?w2) = Finished"
    by (simp add: state_defs run_defs)
  from referential_integrity_and_rollback [of interrupted_world] a b'
  have e: "same_rows (db interrupted_world) (db (snd (etl_main interrupted_world)))
           \<and> ref_ok (db (snd (etl_main interrupted_world)))" by blast
  from referential_integrity_and_rollback [of ?w2] c' d
  have f: "ref_ok (db (snd (etl_main ?w2)))" by blast
  from a b c d e f show ?thesis by blast
qed

text \<open>
  Claim C2. The dimension merge is idempotent. If a run over CSV rows \<open>rows\<close> finishes, then
  a second run over the same rows, started on the store the first run left, leaves the
  tomogram table exactly as the first run left it: the same rows with the same generated ids
  (so the same count), whether the second run finishes or not. In the merge statement itself
  the rows already in the table stay where they are, unchanged, and a name that is already
  present gets no second row: its existing row, with its \<open>tomo_id\<close>, is all there is.
\<close>

theorem dimension_merge_idempotent:
  "(fst (etl_main w) = Finished \<longrightarrow> labels_csv w = Some rows \<longrightarrow>
      db w2 = db (snd (etl_main w)) \<longrightarrow> labels_csv w2 = Some rows \<longrightarrow>
      tomograms (db (snd (etl_main w2))) = tomograms (db (snd (etl_main w))))
   \<and> take (length ts) (fst (merge_rows staged ts s)) = ts
   \<and> (n \<in> set (map tomo_name ts) \<longrightarrow>
        filter (\<lambda>t. tomo_name t = n) (fst (merge_rows staged ts s)) = filter (\<lambda>t. tomo_name t = n) ts)"
proof (intro conjI impI)
  assume f1: "fst (etl_main w) = Finished" and c1: "labels_csv w = Some rows"
    and d2: "db w2 = db (snd (etl_main w))" and c2: "labels_csv w2 = Some rows"
  from finished_load [OF f1 c1]
  have t1: "tomograms (db (snd (etl_main w))) =
              fst (merge_rows (unique_tomos rows) (tomograms (db w)) (tomo_seq (db w)))" by simp
  have present: "set (map fst (unique_tomos rows)) \<subseteq> set (map tomo_name (tomograms (db w2)))"
    unfolding d2 t1 merge_rows_names by simp
  show "tomograms (db (snd (etl_main w2))) = tomograms (db (snd (etl_main w)))"
  proof (cases "fst (etl_main w2) = Finished")
    case True
    from finished_load [OF True c2] merge_rows_noop [OF present] d2 show ?thesis by simp
  next
    case False
    from etl_main_not_finished [OF False] d2 show ?thesis by (simp add: same_rows_def)
  qed
next
  from merge_rows_prefix [of staged ts s] show "take (length ts) (fst (merge_rows staged ts s)) = ts"
    by auto
next
  assume n: "n \<in> set (map tomo_name ts)"
  from merge_rows_prefix [of staged ts s] obtain new where
    m: "fst (merge_rows staged ts s) = ts @ new" and
    d: "set (map tomo_name new) \<inter> set (map tomo_name ts) = {}" by blast
  from n d have "filter (\<lambda>t. tomo_name t = n) new = []"
    by (auto simp: filter_empty_conv)
  with m show "filter (\<lambda>t. tomo_name t = n) (fst (merge_rows staged ts s)) = filter (\<lambda>t. tomo_name t = n) ts"
    by simp
qed

theorem dimension_merge_idempotent_witness:
  "fst (etl_main steady_world) = Finished
   \<and> labels_csv steady_world = Some sample_labels
   \<and> labels_csv (snd (etl_main steady_world)) = Some sample_labels
   \<and> fst (etl_main (snd (etl_main steady_world))) = Finished
   \<and> tomograms (db (snd (etl_main steady_world))) =
       [\<lparr>tomo_id = 1, tomo_name = ''A'', raw_volume_path = ''volumes/A.mrc''\<rparr>,
        \<lparr>tomo_id = 2, tomo_name = ''B'', raw_volume_path = ''volumes/B.mrc''\<rparr>]
   \<and> tomograms (db (snd (etl_main (snd (etl_main steady_world))))) = tomograms (db (snd (etl_main steady_world)))
   \<and> filter (\<lambda>t. tomo_name t = ''A'')
        (fst (merge_rows [(''A'', ''volumes/A.mrc''), (''C'', ''volumes/C.mrc'')] (tomograms loaded_db) 2))
      = [\<lparr>tomo_id = 1, tomo_name = ''A'', raw_volume_path = ''volumes/A.mrc''\<rparr>]"
proof -
  let ?w2 = "snd (etl_main steady_world)"
  have a: "fst (etl_main steady_world) = Finished"
    by (simp add: state_defs run_defs)
  have b: "labels_csv steady_world = Some sample_labels"
    by (simp add: steady_world_def fresh_world_def)
  have c: "labels_csv ?w2 = Some sample_labels"
    by (simp add: state_defs run_defs)
  have d: "fst (etl_main ?w2) = Finished"
    by (simp add: state_defs run_defs)
  have e: "tomograms (db ?w2) =
       [\<lparr>tomo_id = 1, tomo_name = ''A'', raw_volume_path = ''volumes/A.mrc''\<rparr>,
        \<lparr>tomo_id = 2, tomo_name = ''B'', raw_volume_path = ''volumes/B.mrc''\<rparr>]"
    by (simp add: state_defs run_defs)
  have n: "''A'' \<in> set (map tomo_name (tomograms loaded_db))"
    by (simp add: loaded_db_def)
  from dimension_merge_idempotent [of steady_world sample_labels ?w2
      "tomograms loaded_db" "[(''A'', ''volumes/A.mrc''), (''C'', ''volumes/C.mrc'')]" 2 "''A''"] a b c n
  have f: "tomograms (db (snd (etl_main ?w2))) = tomograms (db ?w2)
     \<and> filter (\<lambda>t. tomo_name t = ''A'')
        (fst (merge_rows [(''A'', ''volumes/A.mrc''), (''C'', ''volumes/C.mrc'')] (tomograms loaded_db) 2))
       = filter (\<lambda>t. tomo_name t = ''A'') (tomograms loaded_db)"
    by blast
  have g: "filter (\<lambda>t. tomo_name t = ''A'') (tomograms loaded_db)
            = [\<lparr>tomo_id = 1, tomo_name = ''A'', raw_volume_path = ''volumes/A.mrc''\<rparr>]"
    by (simp add: loaded_db_def)
  from a b c d e f g show ?thesis by simp
qed

text \<open>
  Claim C4, as amended. On a first run (the readiness gate has passed in state \<open>w1\<close>, the
  secret is not found, the three variables are set and non-empty, the write succeeds) the
  bootstrapper writes the Credential Document, logs the request to re-run and ends the
  process by \<^verbatim>\<open>sys.exit(0)\<close>: the exit status is 0, the status a completed load has as
  well, so the two are told apart by the log line and not by the status. The run holds no
  database event and leaves the database as it was. A second invocation on the store the
  first one left (gate passed, database reachable, schema file and CSV present, no statement
  fails) reads the stored secret, writes nothing to the store, and performs the load: it
  finishes with one annotation row per CSV row, each referring to a tomogram row.
\<close>

theorem first_run_seeds_then_rerun_loads:
  assumes g: "wait_for_vault [0..<5] (emit (Log INFO ''Starting ETL pipeline...'') w) = (Return (), w1)"
    and s: "\<not> vault_read_fails w" "\<not> vault_write_fails w" "map_of (vault w) VAULT_SECRET_PATH = None"
    and e: "map_of (environ w) ''POSTGRES_USER'' = Some u" "u \<noteq> []"
           "map_of (environ w) ''POSTGRES_PASSWORD'' = Some p" "p \<noteq> []"
           "map_of (environ w) ''POSTGRES_DB'' = Some d" "d \<noteq> []"
  shows "etl_main w =
           (Exited 0,
            w1\<lparr>vault := (VAULT_SECRET_PATH,
                           [(''POSTGRES_USER'', u), (''POSTGRES_PASSWORD'', p), (''POSTGRES_DB'', d)]) # vault w,
               trace := trace w1 @
                 [VaultRead VAULT_SECRET_PATH,
                  Log WARNING ''Secrets not found in Vault. This appears to be the first run.'',
                  Log INFO ''Attempting to write secrets to Vault...'',
                  GetEnv ''POSTGRES_USER'', GetEnv ''POSTGRES_PASSWORD'', GetEnv ''POSTGRES_DB'',
                  VaultWrite VAULT_SECRET_PATH
                    [(''POSTGRES_USER'', u), (''POSTGRES_PASSWORD'', p), (''POSTGRES_DB'', d)],
                  Log INFO ''Secrets successfully written to Vault. Please re-run the command.'']\<rparr>)
         \<and> exit_status (fst (etl_main w)) = 0
         \<and> db (snd (etl_main w)) = db w
         \<and> (vault w2 = vault (snd (etl_main w)) \<longrightarrow> \<not> vault_read_fails w2 \<longrightarrow>
              wait_for_vault [0..<5] (emit (Log INFO ''Starting ETL pipeline...'') w2) = (Return (), w3) \<longrightarrow>
              db_reachable w2 \<longrightarrow> schema_file w2 = Some ddl \<longrightarrow> (\<forall>s. \<not> faulty w2 s) \<longrightarrow>
              labels_csv w2 = Some rows \<longrightarrow>
                fst (etl_main w2) = Finished
              \<and> vault (snd (etl_main w2)) = vault w2
              \<and> length (annotations (db (snd (etl_main w2)))) = length rows
              \<and> ref_ok (db (snd (etl_main w2))))"
proof -
  from gate_keeps [OF g]
  have k: "vault_read_fails w1 = vault_read_fails w" "vault_write_fails w1 = vault_write_fails w"
    "vault w1 = vault w" "environ w1 = environ w" "db w1 = db w"
    by (simp_all add: same_env_def)
  have m: "etl_main w =
           (Exited 0,
            w1\<lparr>vault := (VAULT_SECRET_PATH,
                           [(''POSTGRES_USER'', u), (''POSTGRES_PASSWORD'', p), (''POSTGRES_DB'', d)]) # vault w,
               trace := trace w1 @
                 [VaultRead VAULT_SECRET_PATH,
                  Log WARNING ''Secrets not found in Vault. This appears to be the first run.'',
                  Log INFO ''Attempting to write secrets to Vault...'',
                  GetEnv ''POSTGRES_USER'', GetEnv ''POSTGRES_PASSWORD'', GetEnv ''POSTGRES_DB'',
                  VaultWrite VAULT_SECRET_PATH
                    [(''POSTGRES_USER'', u), (''POSTGRES_PASSWORD'', p), (''POSTGRES_DB'', d)],
                  Log INFO ''Secrets successfully written to Vault. Please re-run the command.'']\<rparr>)"
    using g s e k
    by (simp add: etl_main_def etl_try_def then_do_def etl_get_db_credentials_from_vault_def
          read_secret_version_def getenv_def truthy_def create_or_update_secret_def emit_def Let_def)
  have second: "fst (etl_main w2) = Finished
              \<and> vault (snd (etl_main w2)) = vault w2
              \<and> length (annotations (db (snd (etl_main w2)))) = length rows
              \<and> ref_ok (db (snd (etl_main w2)))"
    if v2: "vault w2 = vault (snd (etl_main w))" and r2: "\<not> vault_read_fails w2"
      and g2: "wait_for_vault [0..<5] (emit (Log INFO ''Starting ETL pipeline...'') w2) = (Return (), w3)"
      and c2: "db_reachable w2" "schema_file w2 = Some ddl" "\<forall>s. \<not> faulty w2 s"
      and l2: "labels_csv w2 = Some rows"
  proof -
    let ?c = "[(''POSTGRES_USER'', u), (''POSTGRES_PASSWORD'', p), (''POSTGRES_DB'', d)]"
    have f: "map_of (vault w2) VAULT_SECRET_PATH = Some ?c" using v2 m by simp
    have ks: "map_of ?c ''POSTGRES_USER'' = Some u" "map_of ?c ''POSTGRES_PASSWORD'' = Some p"
      "map_of ?c ''POSTGRES_DB'' = Some d" by simp_all
    from etl_main_loads [OF g2 r2 f ks c2 l2]
    have a: "fst (etl_main w2) = Finished" "vault (snd (etl_main w2)) = vault w2" by simp_all
    from finished_load [OF a(1) l2]
    have "ref_ok (db (snd (etl_main w2)))"
      "length (annotations (db (snd (etl_main w2)))) = length rows"
      by (simp_all add: make_annotations_def)
    with a show ?thesis by simp
  qed
  from m k second show ?thesis by (simp add: exit_status_def)
qed

theorem first_run_seeds_then_rerun_loads_witness:
  "\<not> vault_read_fails fresh_world \<and> \<not> vault_write_fails fresh_world
   \<and> map_of (vault fresh_world) VAULT_SECRET_PATH = None
   \<and> fst (etl_main fresh_world) = Exited 0
   \<and> db (snd (etl_main fresh_world)) = db fresh_world
   \<and> vault (snd (etl_main fresh_world)) = [(''cryoet'', stored_secret)]
   \<and> labels_csv (snd (etl_main fresh_world)) = Some sample_labels
   \<and> fst (etl_main (snd (etl_main fresh_world))) = Finished
   \<and> vault (snd (etl_main (snd (etl_main fresh_world)))) = [(''cryoet'', stored_secret)]
   \<and> length (annotations (db (snd (etl_main (snd (etl_main fresh_world)))))) = 3
   \<and> ref_ok (db (snd (etl_main (snd (etl_main fresh_world)))))"
proof -
  let ?w1 = "(emit (Log INFO ''Starting ETL pipeline...'') fresh_world)\<lparr>polls := 1,
               trace := [Log INFO ''Starting ETL pipeline...'', HealthPoll]\<rparr>"
  let ?w2 = "snd (etl_main fresh_world)"
  let ?w3 = "snd (wait_for_vault [0..<5] (emit (Log INFO ''Starting ETL pipeline...'') ?w2))"
  have g: "wait_for_vault [0..<5] (emit (Log INFO ''Starting ETL pipeline...'') fresh_world) = (Return (), ?w1)"
    by (simp add: range_5 read_health_status_def emit_def fresh_world_def)
  have s: "\<not> vault_read_fails fresh_world" "\<not> vault_write_fails fresh_world"
    "map_of (vault fresh_world) VAULT_SECRET_PATH = None"
    by (simp_all add: fresh_world_def)
  have e: "map_of (environ fresh_world) ''POSTGRES_USER'' = Some ''cryo''" "''cryo'' \<noteq> []"
    "map_of (environ fresh_world) ''POSTGRES_PASSWORD'' = Some ''pw''" "''pw'' \<noteq> []"
    "map_of (environ fresh_world) ''POSTGRES_DB'' = Some ''tomo''" "''tomo'' \<noteq> []"
    by (simp_all add: fresh_world_def)
  have g2f: "fst (wait_for_vault [0..<5] (emit (Log INFO ''Starting ETL pipeline...'') ?w2)) = Return ()"
    by (simp add: state_defs run_defs truthy_def create_or_update_secret_def)
  then have g2: "wait_for_vault [0..<5] (emit (Log INFO ''Starting ETL pipeline...'') ?w2) = (Return (), ?w3)"
    by (metis prod.collapse)
  have c2: "\<not> vault_read_fails ?w2" "db_reachable ?w2"
    "schema_file ?w2 = Some ''CREATE TABLE IF NOT EXISTS tomograms ();''"
    "\<forall>s. \<not> faulty ?w2 s" "labels_csv ?w2 = Some sample_labels"
    by (simp_all add: state_defs run_defs truthy_def create_or_update_secret_def)
  from first_run_seeds_then_rerun_loads [OF g s e, of ?w2 ?w3
      "''CREATE TABLE IF NOT EXISTS tomograms ();''" sample_labels] g2 c2
  have r: "etl_main fresh_world =
           (Exited 0,
            ?w1\<lparr>vault := (VAULT_SECRET_PATH,
                           [(''POSTGRES_USER'', ''cryo''), (''POSTGRES_PASSWORD'', ''pw''), (''POSTGRES_DB'', ''tomo'')])
                          # vault fresh_world,
               trace := trace ?w1 @
                 [VaultRead VAULT_SECRET_PATH,
                  Log WARNING ''Secrets not found in Vault. This appears to be the first run.'',
                  Log INFO ''Attempting to write secrets to Vault...'',
                  GetEnv ''POSTGRES_USER'', GetEnv ''POSTGRES_PASSWORD'', GetEnv ''POSTGRES_DB'',
                  VaultWrite VAULT_SECRET_PATH
                    [(''POSTGRES_USER'', ''cryo''), (''POSTGRES_PASSWORD'', ''pw''), (''POSTGRES_DB'', ''tomo'')],
                  Log INFO ''Secrets successfully written to Vault. Please re-run the command.'']\<rparr>)"
    and r2: "fst (etl_main ?w2) = Finished \<and> vault (snd (etl_main ?w2)) = vault ?w2
              \<and> length (annotations (db (snd (etl_main ?w2)))) = length sample_labels
              \<and> ref_ok (db (snd (etl_main ?w2)))"
    by blast+
  have v: "vault ?w2 = [(''cryoet'', stored_secret)]" "fst (etl_main fresh_world) = Exited 0"
    "db ?w2 = db fresh_world"
    unfolding r by (simp_all add: fresh_world_def stored_secret_def VAULT_SECRET_PATH_def emit_def)
  from s c2 r2 v show ?thesis by (simp add: sample_labels_def)
qed

theorem rerun_exit_status_counterexample:
  "fst (etl_main fresh_world) = Exited 0
   \<and> fst (etl_main (snd (etl_main fresh_world))) = Finished
   \<and> exit_status (fst (etl_main fresh_world)) = exit_status (fst (etl_main (snd (etl_main fresh_world))))"
  by (simp add: state_defs run_defs truthy_def create_or_update_secret_def exit_status_def)

text \<open>
  Claim C8. For a tomogram name that is unknown, or that is known but has no annotation,
  \<^verbatim>\<open>count_annotations\<close> reports 0 and raises nothing: given that the database answers
  (it is reachable and the query does not fail), the call returns normally after printing
  the line with the count 0, and the tool ends with exit status 0.
\<close>

theorem count_annotations_zero_for_missing:
  assumes "db_reachable w" and "\<not> faulty w CountQuery"
    and "name \<notin> set (map tomo_name (tomograms (db w)))
         \<or> (\<forall>t \<in> set (tomograms (db w)). \<forall>a \<in> set (annotations (db w)).
               tomo_name t = name \<longrightarrow> ann_tomo_id a \<noteq> tomo_id t)"
  shows "count_annotations name w =
           (Return (),
            w\<lparr>trace := trace w @
               [DbConnect, Exec CountQuery,
                Print (''Tomogram '' @ [CHR 0x27] @ name @ [CHR 0x27] @ '' has 0 annotations.'')]\<rparr>)
         \<and> query_main (CountAnnotations name) w =
           (Finished,
            w\<lparr>trace := trace w @
               [DbConnect, Exec CountQuery,
                Print (''Tomogram '' @ [CHR 0x27] @ name @ [CHR 0x27] @ '' has 0 annotations.'')]\<rparr>)"
proof -
  have "\<not> 0 < count_of (db w) name"
    unfolding count_of_pos using assms(3) by auto
  then have z: "count_of (db w) name = 0" by simp
  have c: "count_annotations name w =
           (Return (),
            w\<lparr>trace := trace w @
               [DbConnect, Exec CountQuery,
                Print (''Tomogram '' @ [CHR 0x27] @ name @ [CHR 0x27] @ '' has 0 annotations.'')]\<rparr>)"
    using assms(1,2) z
    by (simp add: count_annotations_def then_do_def connect_def fetch_def count_query_def
          scalar_one_or_none_def or_zero_def emit_def str_nat_0)
  then show ?thesis by (simp add: query_main_def)
qed

theorem count_annotations_zero_for_missing_witness:
  "db_reachable query_world \<and> \<not> faulty query_world CountQuery
   \<and> ''Z'' \<notin> set (map tomo_name (tomograms (db query_world)))
   \<and> ''C'' \<in> set (map tomo_name (tomograms (db query_world)))
   \<and> fst (count_annotations ''Z'' query_world) = Return ()
   \<and> trace (snd (count_annotations ''Z'' query_world)) =
       [DbConnect, Exec CountQuery, Print (''Tomogram '' @ [CHR 0x27] @ ''Z'' @ [CHR 0x27] @ '' has 0 annotations.'')]
   \<and> fst (query_main (CountAnnotations ''C'') query_world) = Finished
   \<and> trace (snd (query_main (CountAnnotations ''C'') query_world)) =
       [DbConnect, Exec CountQuery, Print (''Tomogram '' @ [CHR 0x27] @ ''C'' @ [CHR 0x27] @ '' has 0 annotations.'')]"
proof -
  have a: "db_reachable query_world" "\<not> faulty query_world CountQuery"
    by (simp_all add: query_world_def state_defs)
  have z: "''Z'' \<notin> set (map tomo_name (tomograms (db query_world)))"
    and c: "''C'' \<in> set (map tomo_name (tomograms (db query_world)))"
    by (simp_all add: query_world_def sparse_db_def state_defs)
  have n: "\<forall>t \<in> set (tomograms (db query_world)). \<forall>a \<in> set (annotations (db query_world)).
               tomo_name t = ''C'' \<longrightarrow> ann_tomo_id a \<noteq> tomo_id t"
    by (simp add: query_world_def sparse_db_def state_defs)
  have t: "trace query_world = []" by (simp add: query_world_def state_defs)
  from count_annotations_zero_for_missing [OF a, of "''Z''"] z t
  have r1: "fst (count_annotations ''Z'' query_world) = Return ()
     \<and> trace (snd (count_annotations ''Z'' query_world)) =
       [DbConnect, Exec CountQuery, Print (''Tomogram '' @ [CHR 0x27] @ ''Z'' @ [CHR 0x27] @ '' has 0 annotations.'')]"
    by simp
  from count_annotations_zero_for_missing [OF a, of "''C''"] n t
  have r2: "fst (query_main (CountAnnotations ''C'') query_world) = Finished
     \<and> trace (snd (query_main (CountAnnotations ''C'') query_world)) =
       [DbConnect, Exec CountQuery, Print (''Tomogram '' @ [CHR 0x27] @ ''C'' @ [CHR 0x27] @ '' has 0 annotations.'')]"
    by simp
  from a z c r1 r2 show ?thesis by blast
qed

text \<open>
  Claim C9, as amended. The query joins tomograms with annotations before it groups, so a
  tomogram without annotations is in no group. \<^verbatim>\<open>find_rich_tomograms\<close> lists exactly the
  tomogram names that have at least one annotation and whose annotation count (the count that
  \<^verbatim>\<open>count_annotations\<close> reports) is strictly greater than \<open>min_annotations\<close>, each name
  once, paired with its count, in descending order of count. For \<open>min_annotations \<ge> 0\<close> these
  are exactly the tomograms whose count is strictly greater than the bound; for a negative
  bound the tomograms with count 0 are left out, as the counterexample shows.
\<close>

theorem find_rich_lists_annotated_tomograms:
  "set (rich_query m d) =
     {(n, c). n \<in> set (map tomo_name (tomograms d)) \<and> c = count_of d n \<and> m < int c \<and> 0 < c}
   \<and> (0 \<le> m \<longrightarrow>
        set (rich_query m d) = {(n, c). n \<in> set (map tomo_name (tomograms d)) \<and> c = count_of d n \<and> m < int c})
   \<and> sorted_wrt (\<lambda>x y. snd y \<le> snd x) (rich_query m d)
   \<and> distinct (map fst (rich_query m d))
   \<and> (db_reachable w \<longrightarrow> \<not> faulty w RichQuery \<longrightarrow>
        find_rich_tomograms m w =
          (Return (),
           w\<lparr>trace := trace w @
              [DbConnect, Exec RichQuery,
               if rich_query m (db w) \<noteq> [] then PrintTable (rich_query m (db w))
               else Print (''No tomograms found with > '' @ str_int m @ '' annotations.'')]\<rparr>))"
proof -
  have known: "n \<in> set (map tomo_name (tomograms d))" if "0 < count_of d n" for n
    using that unfolding count_of_pos by auto
  have s1: "set (rich_query m d) =
     {(n, c). n \<in> set (map tomo_name (tomograms d)) \<and> c = count_of d n \<and> m < int c \<and> 0 < c}"
    unfolding rich_query_set using known by auto
  have s2: "set (rich_query m d) = {(n, c). n \<in> set (map tomo_name (tomograms d)) \<and> c = count_of d n \<and> m < int c}"
    if "0 \<le> m"
    unfolding s1 using that by auto
  have p: "find_rich_tomograms m w =
          (Return (),
           w\<lparr>trace := trace w @
              [DbConnect, Exec RichQuery,
               if rich_query m (db w) \<noteq> [] then PrintTable (rich_query m (db w))
               else Print (''No tomograms found with > '' @ str_int m @ '' annotations.'')]\<rparr>)"
    if "db_reachable w" "\<not> faulty w RichQuery"
    using that by (simp add: find_rich_tomograms_def then_do_def connect_def fetch_def emit_def)
  from s1 s2 p rich_query_sorted [of m d] rich_query_distinct [of m d] show ?thesis by blast
qed

theorem find_rich_lists_annotated_tomograms_witness:
  "(0::int) \<le> 1 \<and> db_reachable query_world \<and> \<not> faulty query_world RichQuery
   \<and> count_of sparse_db ''A'' = 2 \<and> count_of sparse_db ''B'' = 1
   \<and> (''A'', 2) \<in> set (rich_query 1 sparse_db)
   \<and> (''B'', 1) \<notin> set (rich_query 1 sparse_db)
   \<and> fst (find_rich_tomograms 1 query_world) = Return ()"
proof -
  have a: "db_reachable query_world" "\<not> faulty query_world RichQuery"
    by (simp_all add: query_world_def state_defs)
  have c: "count_of sparse_db ''A'' = 2" "count_of sparse_db ''B'' = 1"
    "''A'' \<in> set (map tomo_name (tomograms sparse_db))"
    by (simp_all add: count_of_def joined_def sparse_db_def loaded_db_def)
  have z: "(0::int) \<le> 1" by simp
  note th = find_rich_lists_annotated_tomograms [of 1 sparse_db query_world]
  from th [THEN conjunct2, THEN conjunct1] z
  have s: "set (rich_query 1 sparse_db) =
      {(n, c). n \<in> set (map tomo_name (tomograms sparse_db)) \<and> c = count_of sparse_db n \<and> 1 < int c}"
    by (rule mp)
  note p = th [THEN conjunct2, THEN conjunct2, THEN conjunct2, THEN conjunct2]
  from mp [OF mp [OF p a(1)] a(2)]
  have "find_rich_tomograms 1 query_world =
          (Return (),
           query_world\<lparr>trace := trace query_world @
              [DbConnect, Exec RichQuery,
               if rich_query 1 (db query_world) \<noteq> [] then PrintTable (rich_query 1 (db query_world))
               else Print (''No tomograms found with > '' @ str_int 1 @ '' annotations.'')]\<rparr>)" .
  then have f: "fst (find_rich_tomograms 1 query_world) = Return ()" by simp
  have "(''A'', 2) \<in> set (rich_query 1 sparse_db)" "(''B'', 1) \<notin> set (rich_query 1 sparse_db)"
    unfolding s using c by simp_all
  with a c f show ?thesis by simp
qed

theorem find_rich_negative_bound_counterexample:
  "''C'' \<in> set (map tomo_name (tomograms sparse_db))
   \<and> count_of sparse_db ''C'' = 0
   \<and> (- 1 :: int) < int (count_of sparse_db ''C'')
   \<and> rich_query (- 1) sparse_db = [(''A'', 2), (''B'', 1)]"
  by (simp add: rich_query_def count_of_def joined_def sparse_db_def loaded_db_def Let_def)

end
